theory Spec2Isabelle
  imports Main "HOL-Library.Sublist" "HOL-Library.Product_Lexorder"
begin

section \<open>JavaScript values used by the bot\<close>

text \<open>
  Strings are lists of code units; the model covers code units below 256 (\<^typ>\<open>char\<close>).
  A finite number is kept in the decimal form that ECMAScript's \<^verbatim>\<open>Number::toString\<close>
  works on: \<open>Finite neg s e\<close> is the number \<open>(if neg then -1 else 1) * s * 10 ^ e\<close>.
  Integers are exact in the model; JavaScript rounds them to the nearest double above
  \<open>2 ^ 53\<close>.
\<close>

datatype js_number = NaN | Infinity bool | Finite bool nat int

datatype js_value = JUndefined | JNull | JNum js_number | JStr string

definition number_of_nat :: "nat \<Rightarrow> js_number" where
  "number_of_nat n = Finite False n 0"

definition number_of_int :: "int \<Rightarrow> js_number" where
  "number_of_int i = Finite (i < 0) (nat \<bar>i\<bar>) 0"

text \<open>\<^verbatim>\<open>Number.isFinite(v)\<close>: true only for a number that is neither NaN nor infinite.\<close>

fun isFinite :: "js_value \<Rightarrow> bool" where
  "isFinite (JNum (Finite neg s e)) = True"
| "isFinite v = False"

text \<open>\<^verbatim>\<open>typeof v === 'number'\<close>.\<close>

fun is_number :: "js_value \<Rightarrow> bool" where
  "is_number (JNum x) = True"
| "is_number v = False"

text \<open>
  The value of a finite number scaled to a common exponent \<open>m\<close> (at most both
  exponents), so that two finite numbers are compared as integers.
\<close>

definition scaled :: "int \<Rightarrow> bool \<Rightarrow> nat \<Rightarrow> int \<Rightarrow> int" where
  "scaled m neg s e = (if neg then - 1 else 1) * int s * 10 ^ nat (e - m)"

text \<open>\<^verbatim>\<open>a > b\<close> on numbers: false whenever an operand is NaN.\<close>

fun num_gt :: "js_number \<Rightarrow> js_number \<Rightarrow> bool" where
  "num_gt NaN b = False"
| "num_gt a NaN = False"
| "num_gt (Infinity na) (Infinity nb) = (\<not> na \<and> nb)"
| "num_gt (Infinity na) (Finite nb sb eb) = (\<not> na)"
| "num_gt (Finite na sa ea) (Infinity nb) = nb"
| "num_gt (Finite na sa ea) (Finite nb sb eb) =
     (scaled (min ea eb) nb sb eb < scaled (min ea eb) na sa ea)"

subsection \<open>Decimal digits\<close>

definition digit_char :: "nat \<Rightarrow> char" where
  "digit_char d = ''0123456789'' ! (d mod 10)"

definition digit_val :: "char \<Rightarrow> nat option" where
  "digit_val c = map_of (zip ''0123456789'' [0, 1, 2, 3, 4, 5, 6, 7, 8, 9]) c"

fun digits :: "nat \<Rightarrow> string" where
  "digits n = (if n < 10 then [digit_char n] else digits (n div 10) @ [digit_char (n mod 10)])"

declare digits.simps [simp del]

text \<open>The decimal value of a string of digits, most significant first.\<close>

fun digits_value :: "nat \<Rightarrow> string \<Rightarrow> nat" where
  "digits_value acc [] = acc"
| "digits_value acc (c # cs) =
     (case digit_val c of None \<Rightarrow> acc | Some d \<Rightarrow> digits_value (10 * acc + d) cs)"

subsection \<open>Number::toString\<close>

text \<open>
  ECMAScript picks integers \<open>n\<close>, \<open>k\<close>, \<open>s\<close> with \<open>k\<close> as small as possible, so the
  digits carry no trailing zero: \<open>strip_zeros\<close> moves them into the exponent.
\<close>

function strip_zeros :: "nat \<Rightarrow> int \<Rightarrow> nat \<times> int" where
  "strip_zeros s e = (if s \<noteq> 0 \<and> s mod 10 = 0 then strip_zeros (s div 10) (e + 1) else (s, e))"
  by pat_completeness auto
termination
  by (relation "measure (\<lambda>(s, e). s)") auto

declare strip_zeros.simps [simp del]

definition exponent_part :: "int \<Rightarrow> string" where
  "exponent_part n = ''e'' @ (if 0 \<le> n - 1 then ''+'' else ''-'') @ digits (nat \<bar>n - 1\<bar>)"

definition finite_to_string :: "nat \<Rightarrow> int \<Rightarrow> string" where
  "finite_to_string s0 e0 =
     (let (s, e) = strip_zeros s0 e0;
          ds = digits s;
          k = int (length ds);
          n = e + k
      in if k \<le> n \<and> n \<le> 21 then ds @ replicate (nat (n - k)) CHR ''0''
         else if 0 < n \<and> n \<le> 21 then take (nat n) ds @ ''.'' @ drop (nat n) ds
         else if - 6 < n \<and> n \<le> 0 then ''0.'' @ replicate (nat (- n)) CHR ''0'' @ ds
         else if k = 1 then ds @ exponent_part n
         else take 1 ds @ ''.'' @ drop 1 ds @ exponent_part n)"

fun number_to_string :: "js_number \<Rightarrow> string" where
  "number_to_string NaN = ''NaN''"
| "number_to_string (Infinity neg) = (if neg then ''-Infinity'' else ''Infinity'')"
| "number_to_string (Finite neg s e) =
     (if s = 0 then ''0'' else (if neg then ''-'' else '''') @ finite_to_string s e)"

text \<open>\<^verbatim>\<open>String(v)\<close> for the values of the model.\<close>

fun to_string :: "js_value \<Rightarrow> string" where
  "to_string JUndefined = ''undefined''"
| "to_string JNull = ''null''"
| "to_string (JNum x) = number_to_string x"
| "to_string (JStr s) = s"

subsection \<open>Number.parseInt(v, 10)\<close>

text \<open>White space and line terminators among the code units below 256.\<close>

definition is_space :: "char \<Rightarrow> bool" where
  "is_space c = (c \<in> set [CHR 0x09, CHR 0x0A, CHR 0x0B, CHR 0x0C, CHR 0x0D, CHR 0x20, CHR 0xA0])"

definition is_digit :: "char \<Rightarrow> bool" where
  "is_digit c = (digit_val c \<noteq> None)"

text \<open>
  The result of \<^verbatim>\<open>Number.parseInt(string, 10)\<close>: leading white space is skipped, one
  sign is read, then the longest run of decimal digits; no digit gives NaN. A digit
  string too large for a double gives an infinity.
\<close>

definition double_overflow :: "nat \<Rightarrow> bool" where
  "double_overflow v = (2 ^ 1024 - 2 ^ 970 \<le> v)"

definition parseInt :: "js_value \<Rightarrow> js_number" where
  "parseInt v =
     (let S = dropWhile is_space (to_string v);
          neg = (S \<noteq> [] \<and> hd S = CHR ''-'');
          S1 = (if S \<noteq> [] \<and> (hd S = CHR ''-'' \<or> hd S = CHR ''+'') then tl S else S);
          Z = takeWhile is_digit S1
      in if Z = [] then NaN
         else if double_overflow (digits_value 0 Z) then Infinity neg
         else Finite neg (digits_value 0 Z) 0)"

text \<open>\<^verbatim>\<open>Number.isInteger(x)\<close>.\<close>

fun isInteger :: "js_number \<Rightarrow> bool" where
  "isInteger (Finite neg s e) = (0 \<le> e \<or> s mod 10 ^ nat (- e) = 0)"
| "isInteger x = False"

text \<open>The count a positive integral number stands for.\<close>

fun count_of :: "js_number \<Rightarrow> nat" where
  "count_of (Finite neg s e) = (if 0 \<le> e then s * 10 ^ nat e else s div 10 ^ nat (- e))"
| "count_of x = 0"

text \<open>\<^verbatim>\<open>a ?? b\<close>.\<close>

fun nullish :: "js_value \<Rightarrow> js_value \<Rightarrow> js_value" where
  "nullish JUndefined b = b"
| "nullish JNull b = b"
| "nullish a b = a"

text \<open>A parameter default \<^verbatim>\<open>p = d\<close>: taken when the argument is undefined.\<close>

fun default_param :: "js_value \<Rightarrow> js_value \<Rightarrow> js_value" where
  "default_param JUndefined d = d"
| "default_param a d = a"

section \<open>The history store (config.js)\<close>

text \<open>
  \<^verbatim>\<open>DEFAULT_KEEP\<close> is computed once from the environment variable
  \<^verbatim>\<open>HISTORY_LIMIT\<close> (\<open>None\<close> when it is not set).
\<close>

definition DEFAULT_KEEP :: "string option \<Rightarrow> nat" where
  "DEFAULT_KEEP hl =
     (let v = (case hl of None \<Rightarrow> JStr '''' | Some s \<Rightarrow> JStr s) in
      if isInteger (parseInt v)
      then (if num_gt (parseInt v) (number_of_nat 1) then count_of (parseInt v) else 1)
      else 20)"

definition normalizeCount :: "js_value \<Rightarrow> nat \<Rightarrow> nat" where
  "normalizeCount v fallback =
     (let parsed = parseInt (nullish v (JStr ''''))
      in if isInteger parsed \<and> num_gt parsed (number_of_nat 0) then count_of parsed else fallback)"

definition normalizeId :: "string option \<Rightarrow> string option" where
  "normalizeId v = (case v of None \<Rightarrow> None | Some x \<Rightarrow> Some x)"

definition getMemoryKey :: "string \<Rightarrow> string option \<Rightarrow> string option \<Rightarrow> string" where
  "getMemoryKey userId guildId channelId =
     userId @ ''|'' @ (case guildId of None \<Rightarrow> '''' | Some g \<Rightarrow> g)
            @ ''|'' @ (case channelId of None \<Rightarrow> '''' | Some c \<Rightarrow> c)"

text \<open>
  A user, guild or channel id is a string; a guild or channel id that is null or undefined
  is \<open>None\<close>. The roles are those that the table's \<^verbatim>\<open>CHECK\<close> constraint admits. The
  store is the module's state: which backend is in use, the table \<^verbatim>\<open>messages\<close> of the
  SQLite file (in rowid order) and the \<^verbatim>\<open>Map\<close> of the memory backend.
\<close>

datatype role = User | Assistant

record entry =
  role :: role
  content :: string
  ts :: int

record row = entry +
  rowid :: int
  user_id :: string
  guild_id :: "string option"
  channel_id :: "string option"

record store =
  useMemoryStore :: bool
  messages :: "row list"
  memoryStore :: "string \<rightharpoonup> entry list"

subsection \<open>The SQLite backend\<close>

text \<open>
  SQL conditions are three-valued: \<open>None\<close> is NULL, and a \<^verbatim>\<open>WHERE\<close> clause keeps a
  row only when its condition is true.
\<close>

type_synonym sql_bool = "bool option"

fun sql_and :: "sql_bool \<Rightarrow> sql_bool \<Rightarrow> sql_bool" where
  "sql_and (Some False) b = Some False"
| "sql_and a (Some False) = Some False"
| "sql_and (Some True) (Some True) = Some True"
| "sql_and a b = None"

fun sql_or :: "sql_bool \<Rightarrow> sql_bool \<Rightarrow> sql_bool" where
  "sql_or (Some True) b = Some True"
| "sql_or a (Some True) = Some True"
| "sql_or (Some False) (Some False) = Some False"
| "sql_or a b = None"

fun sql_eq :: "string option \<Rightarrow> string option \<Rightarrow> sql_bool" where
  "sql_eq (Some a) (Some b) = Some (a = b)"
| "sql_eq a b = None"

definition sql_is_null :: "string option \<Rightarrow> sql_bool" where
  "sql_is_null a = Some (a = None)"

text \<open>
  The \<^verbatim>\<open>WHERE\<close> clause shared by \<^verbatim>\<open>trimStmt\<close>, \<^verbatim>\<open>selectStmt\<close> and
  \<^verbatim>\<open>clearStmt\<close>, for the bound parameters \<^verbatim>\<open>@user_id\<close>, \<^verbatim>\<open>@guild_id\<close>,
  \<^verbatim>\<open>@channel_id\<close>.
\<close>

definition where_key :: "string \<Rightarrow> string option \<Rightarrow> string option \<Rightarrow> row \<Rightarrow> bool" where
  "where_key u g c r =
     (sql_and (sql_eq (Some (user_id r)) (Some u))
        (sql_and
           (sql_or (sql_and (sql_is_null g) (sql_is_null (guild_id r))) (sql_eq (guild_id r) g))
           (sql_or (sql_and (sql_is_null c) (sql_is_null (channel_id r))) (sql_eq (channel_id r) c)))
      = Some True)"

text \<open>\<^verbatim>\<open>ORDER BY ts DESC, rowid DESC\<close>.\<close>

definition order_desc :: "row list \<Rightarrow> row list" where
  "order_desc rs = rev (sort_key (\<lambda>r. (ts r, rowid r)) rs)"

text \<open>
  A table without an explicit key gives a new row the rowid one above the largest in
  use, and 1 when it is empty.
\<close>

definition next_rowid :: "row list \<Rightarrow> int" where
  "next_rowid rs = foldr (\<lambda>r m. max (rowid r) m) rs 0 + 1"

definition insertStmt ::
  "string \<Rightarrow> string option \<Rightarrow> string option \<Rightarrow> role \<Rightarrow> string \<Rightarrow> int \<Rightarrow> row list \<Rightarrow> row list" where
  "insertStmt u g c rl ct t rs =
     rs @ [\<lparr>role = rl, content = ct, ts = t, rowid = next_rowid rs,
            user_id = u, guild_id = g, channel_id = c\<rparr>]"

definition trimStmt :: "string \<Rightarrow> string option \<Rightarrow> string option \<Rightarrow> nat \<Rightarrow> row list \<Rightarrow> row list" where
  "trimStmt u g c keep rs =
     (let victims = map rowid (drop keep (order_desc (filter (where_key u g c) rs)))
      in filter (\<lambda>r. rowid r \<notin> set victims) rs)"

text \<open>The columns \<^verbatim>\<open>role, content, ts\<close> of a row.\<close>

definition select_columns :: "row \<Rightarrow> entry" where
  "select_columns r = \<lparr>role = role r, content = content r, ts = ts r\<rparr>"

definition selectStmt :: "string \<Rightarrow> string option \<Rightarrow> string option \<Rightarrow> nat \<Rightarrow> row list \<Rightarrow> entry list" where
  "selectStmt u g c limit rs =
     map select_columns (take limit (order_desc (filter (where_key u g c) rs)))"

definition clearStmt :: "string \<Rightarrow> string option \<Rightarrow> string option \<Rightarrow> row list \<Rightarrow> row list" where
  "clearStmt u g c rs = filter (\<lambda>r. \<not> where_key u g c r) rs"

subsection \<open>The store's operations\<close>

text \<open>\<^verbatim>\<open>while (messages.length > normalizedKeep) messages.shift()\<close>.\<close>

function shift_while :: "nat \<Rightarrow> 'a list \<Rightarrow> 'a list" where
  "shift_while keep ms = (if keep < length ms then shift_while keep (tl ms) else ms)"
  by pat_completeness auto
termination
  by (relation "measure (\<lambda>(keep, ms). length ms)") auto

declare shift_while.simps [simp del]

text \<open>
  \<open>hl\<close> is the environment's \<^verbatim>\<open>HISTORY_LIMIT\<close>, \<open>now\<close> the value of
  \<^verbatim>\<open>Date.now()\<close> at the call; \<open>keep\<close> is \<open>JUndefined\<close> when the caller leaves it out.
\<close>

definition pushMessage ::
  "string option \<Rightarrow> int \<Rightarrow> string \<Rightarrow> string option \<Rightarrow> string option \<Rightarrow> role \<Rightarrow> string
     \<Rightarrow> js_value \<Rightarrow> store \<Rightarrow> store" where
  "pushMessage hl now userId guildId channelId rl ct keep s =
     (let normalizedKeep =
            normalizeCount (default_param keep (JNum (number_of_nat (DEFAULT_KEEP hl)))) (DEFAULT_KEEP hl);
          ent = \<lparr>role = rl, content = ct, ts = now\<rparr>;
          normalizedGuildId = normalizeId guildId;
          normalizedChannelId = normalizeId channelId
      in if \<not> useMemoryStore s
         then s\<lparr>messages :=
                  trimStmt userId normalizedGuildId normalizedChannelId normalizedKeep
                    (insertStmt userId normalizedGuildId normalizedChannelId rl ct (ts ent)
                       (messages s))\<rparr>
         else
           (let key = getMemoryKey userId normalizedGuildId normalizedChannelId;
                m = (if memoryStore s key = None then (memoryStore s)(key \<mapsto> []) else memoryStore s);
                msgs = (case m key of None \<Rightarrow> [] | Some ms \<Rightarrow> ms)
            in s\<lparr>memoryStore := m(key \<mapsto> shift_while normalizedKeep (msgs @ [ent]))\<rparr>))"

definition getLastMessages ::
  "string option \<Rightarrow> string \<Rightarrow> string option \<Rightarrow> string option \<Rightarrow> js_value \<Rightarrow> store \<Rightarrow> entry list" where
  "getLastMessages hl userId guildId channelId limit s =
     (let normalizedLimit =
            normalizeCount (default_param limit (JNum (number_of_nat (DEFAULT_KEEP hl)))) (DEFAULT_KEEP hl);
          normalizedGuildId = normalizeId guildId;
          normalizedChannelId = normalizeId channelId
      in if \<not> useMemoryStore s
         then rev (selectStmt userId normalizedGuildId normalizedChannelId normalizedLimit (messages s))
         else
           (let key = getMemoryKey userId normalizedGuildId normalizedChannelId;
                msgs = (case memoryStore s key of None \<Rightarrow> [] | Some ms \<Rightarrow> ms)
            in drop (length msgs - normalizedLimit) msgs))"

definition clearHistory :: "string \<Rightarrow> string option \<Rightarrow> string option \<Rightarrow> store \<Rightarrow> store" where
  "clearHistory userId guildId channelId s =
     (let normalizedGuildId = normalizeId guildId;
          normalizedChannelId = normalizeId channelId
      in if \<not> useMemoryStore s
         then s\<lparr>messages := clearStmt userId normalizedGuildId normalizedChannelId (messages s)\<rparr>
         else s\<lparr>memoryStore :=
                  (memoryStore s)(getMemoryKey userId normalizedGuildId normalizedChannelId := None)\<rparr>)"

subsection \<open>Properties of the store used in the proofs\<close>

text \<open>
  The entries of a conversation key, oldest first: the memory backend's array, or the
  SQLite rows of the key in rowid order. \<open>table_ok\<close> says that the table is listed by
  strictly increasing rowid and that the timestamps never decrease along it; \<open>clock_ok\<close>
  adds that the timestamps \<open>tss\<close> of the calls to come (in call order) continue that
  order, as they do when \<^verbatim>\<open>Date.now()\<close> never runs backwards.
\<close>

definition table_ok :: "row list \<Rightarrow> bool" where
  "table_ok rs = (sorted_wrt (<) (map rowid rs) \<and> sorted (map ts rs))"

definition bucket :: "store \<Rightarrow> string \<Rightarrow> string option \<Rightarrow> string option \<Rightarrow> entry list" where
  "bucket s u g c =
     (if useMemoryStore s
      then (case memoryStore s (getMemoryKey u g c) of None \<Rightarrow> [] | Some ms \<Rightarrow> ms)
      else map select_columns (filter (where_key u g c) (messages s)))"

definition clock_ok :: "store \<Rightarrow> int list \<Rightarrow> bool" where
  "clock_ok s tss =
     (useMemoryStore s \<or> (table_ok (messages s) \<and> sorted (map ts (messages s) @ tss)))"

text \<open>
  \<open>push_all\<close> is a caller appending the entries \<open>ms\<close> in order, the \<open>ts\<close> of each being
  the clock's value at its call; \<open>normalizedCount\<close> is the count that \<^verbatim>\<open>pushMessage\<close>
  and \<^verbatim>\<open>getLastMessages\<close> work with for a supplied \<^verbatim>\<open>keep\<close> or \<^verbatim>\<open>limit\<close>.
\<close>

definition push_all ::
  "string option \<Rightarrow> string \<Rightarrow> string option \<Rightarrow> string option \<Rightarrow> js_value \<Rightarrow> entry list \<Rightarrow> store \<Rightarrow> store" where
  "push_all hl u g c keep ms s =
     foldl (\<lambda>s' m. pushMessage hl (ts m) u g c (role m) (content m) keep s') s ms"

definition normalizedCount :: "string option \<Rightarrow> js_value \<Rightarrow> nat" where
  "normalizedCount hl v =
     normalizeCount (default_param v (JNum (number_of_nat (DEFAULT_KEEP hl)))) (DEFAULT_KEEP hl)"

text \<open>
  The values of \<^verbatim>\<open>keep\<close> and \<^verbatim>\<open>limit\<close> that are absent, null, NaN, infinite or a
  number not above zero.
\<close>

fun absent_or_not_positive :: "js_value \<Rightarrow> bool" where
  "absent_or_not_positive JUndefined = True"
| "absent_or_not_positive JNull = True"
| "absent_or_not_positive (JNum NaN) = True"
| "absent_or_not_positive (JNum (Infinity neg)) = True"
| "absent_or_not_positive (JNum (Finite neg s e)) = (neg \<or> s = 0)"
| "absent_or_not_positive (JStr s) = False"

section \<open>Concrete inputs\<close>

text \<open>
  The entries \<open>message-k\<close> for \<open>k\<close> from \<open>i\<close> up to \<open>j - 1\<close>, appended at the clock values
  \<open>1000 + k\<close>, and a store with no entries on either backend.
\<close>

definition test_messages :: "nat \<Rightarrow> nat \<Rightarrow> entry list" where
  "test_messages i j =
     map (\<lambda>k. \<lparr>role = User, content = ''message-'' @ digits k, ts = 1000 + int k\<rparr>) [i..<j]"

definition empty_store :: "bool \<Rightarrow> store" where
  "empty_store mem = \<lparr>useMemoryStore = mem, messages = [], memoryStore = Map.empty\<rparr>"

section \<open>The attachment modules\<close>

text \<open>
  The repository holds two attachment modules. The one that exports
  \<^verbatim>\<open>classifyDiscordAttachment\<close> and takes \<^verbatim>\<open>maxInlineSize\<close> is modelled under the
  source's names; the definitions of \<^verbatim>\<open>bots/Fuku/utils/attachments.js\<close> that differ from
  it carry the suffix \<open>_Fuku\<close>.
\<close>

subsection \<open>Strings\<close>

definition startsWith :: "string \<Rightarrow> string \<Rightarrow> bool" where
  "startsWith s p = (take (length p) s = p)"

definition lower_char :: "char \<Rightarrow> char" where
  "lower_char c =
     (case map_of (zip ''ABCDEFGHIJKLMNOPQRSTUVWXYZ'' ''abcdefghijklmnopqrstuvwxyz'') c of
        None \<Rightarrow> c | Some l \<Rightarrow> l)"

definition toLowerCase :: "string \<Rightarrow> string" where
  "toLowerCase s = map lower_char s"

text \<open>
  An optional string field: \<open>None\<close> is undefined or null. \<open>truthy\<close> is its truth value
  in a condition, \<open>or_else a b\<close> is \<^verbatim>\<open>a || b\<close> and \<open>or_empty\<close> its case \<^verbatim>\<open>a || ''\<close>.
\<close>

definition truthy :: "string option \<Rightarrow> bool" where
  "truthy a = (case a of None \<Rightarrow> False | Some s \<Rightarrow> s \<noteq> [])"

definition or_else :: "string option \<Rightarrow> string \<Rightarrow> string" where
  "or_else a b = (case a of None \<Rightarrow> b | Some s \<Rightarrow> if s = [] then b else s)"

definition or_str :: "string \<Rightarrow> string \<Rightarrow> string" where
  "or_str a b = (if a = [] then b else a)"

text \<open>\<^verbatim>\<open>s.trim().length > 0\<close>: some code unit of \<open>s\<close> is not white space.\<close>

definition trim_nonempty :: "string \<Rightarrow> bool" where
  "trim_nonempty s = (filter (\<lambda>c. \<not> is_space c) s \<noteq> [])"

subsection \<open>Tables\<close>

definition IMAGE_EXTS :: "string list" where
  "IMAGE_EXTS = [''.png'', ''.jpg'', ''.jpeg'', ''.webp'', ''.gif'', ''.bmp'', ''.tiff'',
                 ''.tif'', ''.heic'']"

definition IMAGE_EXTS_Fuku :: "string list" where
  "IMAGE_EXTS_Fuku = [''.png'', ''.jpg'', ''.jpeg'', ''.webp'', ''.gif'']"

definition TEXT_EXTS :: "string list" where
  "TEXT_EXTS = [''.txt'', ''.md'', ''.csv'', ''.json'', ''.xml'', ''.log'', ''.yaml'', ''.yml'']"

definition MIME_BY_EXTENSION :: "(string \<times> string) list" where
  "MIME_BY_EXTENSION =
     [(''.png'', ''image/png''), (''.jpg'', ''image/jpeg''), (''.jpeg'', ''image/jpeg''),
      (''.webp'', ''image/webp''), (''.gif'', ''image/gif''), (''.bmp'', ''image/bmp''),
      (''.tiff'', ''image/tiff''), (''.tif'', ''image/tiff''), (''.heic'', ''image/heic''),
      (''.svg'', ''image/svg+xml''), (''.pdf'', ''application/pdf''), (''.txt'', ''text/plain''),
      (''.md'', ''text/markdown''), (''.csv'', ''text/csv''), (''.json'', ''application/json''),
      (''.xml'', ''application/xml''), (''.log'', ''text/plain''),
      (''.yaml'', ''application/x-yaml''), (''.yml'', ''application/x-yaml'')]"

definition MIME_BY_EXTENSION_Fuku :: "(string \<times> string) list" where
  "MIME_BY_EXTENSION_Fuku =
     [(''.png'', ''image/png''), (''.jpg'', ''image/jpeg''), (''.jpeg'', ''image/jpeg''),
      (''.webp'', ''image/webp''), (''.gif'', ''image/gif''), (''.bmp'', ''image/bmp''),
      (''.tiff'', ''image/tiff''), (''.svg'', ''image/svg+xml''), (''.pdf'', ''application/pdf''),
      (''.txt'', ''text/plain''), (''.md'', ''text/markdown''), (''.csv'', ''text/csv''),
      (''.json'', ''application/json''), (''.xml'', ''application/xml''),
      (''.log'', ''text/plain''), (''.yaml'', ''application/x-yaml''),
      (''.yml'', ''application/x-yaml'')]"

definition RETRY_ATTEMPTS :: nat where
  "RETRY_ATTEMPTS = 3"

definition RETRY_DELAY_MS :: nat where
  "RETRY_DELAY_MS = 500"

definition INLINE_LIMIT_IMAGE_BYTES :: nat where
  "INLINE_LIMIT_IMAGE_BYTES = 8 * 1024 * 1024"

definition INLINE_LIMIT_TEXT_BYTES :: nat where
  "INLINE_LIMIT_TEXT_BYTES = 1 * 1024 * 1024"

subsection \<open>The classifier\<close>

text \<open>
  The attachment descriptor as Discord hands it over. \<open>att_name\<close>, \<open>att_url\<close> and
  \<open>att_size\<close> are the fields \<^verbatim>\<open>name\<close>, \<^verbatim>\<open>url\<close> and \<^verbatim>\<open>size\<close>.
\<close>

record attachment =
  att_name :: "string option"
  contentType :: js_value
  att_size :: js_value
  width :: js_value
  height :: js_value
  att_url :: "string option"
  proxyURL :: "string option"

record classified =
  isImage :: bool
  cls_mimeType :: string
  cls_name :: string
  cls_size :: js_value
  cls_url :: "string option"
  cls_width :: js_value
  cls_height :: js_value

text \<open>
  The match of \<^verbatim>\<open>/(\.[^./\\]+)$/\<close>: a dot followed by one or more code units other than
  dot, slash and backslash, up to the end of the name.
\<close>

definition ext_char :: "char \<Rightarrow> bool" where
  "ext_char c = (c \<notin> set [CHR ''.'', CHR ''/'', CHR 0x5C])"

definition regex_ext :: "string \<Rightarrow> string option" where
  "regex_ext name =
     (let tail = takeWhile ext_char (rev name);
          rest = dropWhile ext_char (rev name)
      in if tail \<noteq> [] \<and> rest \<noteq> [] \<and> hd rest = CHR ''.''
         then Some (CHR ''.'' # rev tail) else None)"

text \<open>\<^verbatim>\<open>name.split('.').pop()\<close>: what follows the last dot, or the whole name.\<close>

definition last_segment :: "string \<Rightarrow> string" where
  "last_segment name = rev (takeWhile (\<lambda>c. c \<noteq> CHR ''.'') (rev name))"

definition table_or :: "(string \<times> string) list \<Rightarrow> string \<Rightarrow> string \<Rightarrow> string" where
  "table_or table key dflt = (case map_of table key of None \<Rightarrow> dflt | Some m \<Rightarrow> or_str m dflt)"

definition extToMime :: "string \<Rightarrow> string" where
  "extToMime name =
     (let ext = toLowerCase (or_str (last_segment name) '''')
      in if ext = ''png'' then ''image/png''
         else if ext = ''jpg'' \<or> ext = ''jpeg'' then ''image/jpeg''
         else if ext = ''webp'' then ''image/webp''
         else if ext = ''gif'' then ''image/gif''
         else if ext = ''bmp'' then ''image/bmp''
         else if ext = ''tif'' \<or> ext = ''tiff'' then ''image/tiff''
         else if ext = ''heic'' then ''image/heic''
         else table_or MIME_BY_EXTENSION (''.'' @ ext) ''application/octet-stream'')"

definition classifyDiscordAttachment :: "attachment \<Rightarrow> classified" where
  "classifyDiscordAttachment a =
     (let name = or_else (att_name a) '''';
          providedMime = (case contentType a of JStr s \<Rightarrow> s | _ \<Rightarrow> '''');
          ext = (case regex_ext name of None \<Rightarrow> '''' | Some e \<Rightarrow> toLowerCase e);
          hasMime = startsWith providedMime ''image/'';
          hasExt = (ext \<in> set IMAGE_EXTS);
          hasDimensions = (isFinite (width a) \<and> isFinite (height a));
          mimeType =
            (if providedMime \<noteq> [] then providedMime
             else if hasExt then extToMime name
             else if hasDimensions then ''image/png''
             else table_or MIME_BY_EXTENSION ext ''application/octet-stream'')
      in \<lparr>isImage = (hasMime \<or> hasExt \<or> hasDimensions),
          cls_mimeType = mimeType,
          cls_name = name,
          cls_size = (if isFinite (att_size a) then att_size a else JNull),
          cls_url = (if truthy (att_url a) then att_url a
                     else if truthy (proxyURL a) then proxyURL a else None),
          cls_width = (if isFinite (width a) then width a else JNull),
          cls_height = (if isFinite (height a) then height a else JNull)\<rparr>)"

text \<open>
  The spec's words for the three signals of an image: the declared MIME type starts
  with \<open>image/\<close>; the name ends in a dot and an extension (no dot, slash or backslash in
  it) that, in lower case, is a recognized image extension; both dimensions are finite
  numbers.
\<close>

definition declared_mime :: "attachment \<Rightarrow> string" where
  "declared_mime a = (case contentType a of JStr s \<Rightarrow> s | _ \<Rightarrow> '''')"

definition declares_image_mime :: "attachment \<Rightarrow> bool" where
  "declares_image_mime a = (\<exists>rest. contentType a = JStr (''image/'' @ rest))"

definition extension_is :: "attachment \<Rightarrow> string \<Rightarrow> bool" where
  "extension_is a e =
     (\<exists>stem sfx. att_name a = Some (stem @ ''.'' @ sfx) \<and> sfx \<noteq> []
        \<and> (\<forall>c\<in>set sfx. ext_char c) \<and> e = ''.'' @ toLowerCase sfx)"

definition has_image_extension :: "attachment \<Rightarrow> bool" where
  "has_image_extension a = (\<exists>e\<in>set IMAGE_EXTS. extension_is a e)"

definition has_dimensions :: "attachment \<Rightarrow> bool" where
  "has_dimensions a = (isFinite (width a) \<and> isFinite (height a))"

subsection \<open>Concrete attachment descriptors\<close>

definition photo_upper :: attachment where
  "photo_upper = \<lparr>att_name = Some ''photo.PNG'', contentType = JNull, att_size = JNum (number_of_nat 2048),
      width = JNull, height = JNull, att_url = Some ''https://cdn.example/photo.PNG'',
      proxyURL = None\<rparr>"

definition pdf_with_dimensions :: attachment where
  "pdf_with_dimensions = \<lparr>att_name = Some ''doc.pdf'', contentType = JNull,
      att_size = JNum (number_of_nat 2048), width = JNum (number_of_nat 100),
      height = JNum (number_of_nat 100), att_url = Some ''https://cdn.example/doc.pdf'',
      proxyURL = None\<rparr>"

definition notes_upper :: attachment where
  "notes_upper = \<lparr>att_name = Some ''notes.TXT'', contentType = JNull,
      att_size = JNum (number_of_nat 12), width = JNull, height = JNull,
      att_url = Some ''https://cdn.example/notes.TXT'', proxyURL = None\<rparr>"

subsection \<open>The outside world\<close>

text \<open>
  A buffer is its list of bytes. An error thrown by the network, the file system or the
  upload API is an \<^verbatim>\<open>Error\<close> object with an optional \<^verbatim>\<open>code\<close> and a
  \<^verbatim>\<open>message\<close>. A computation that may throw returns \<open>Inl\<close> of what it throws.
\<close>

type_synonym buffer = "char list"

datatype js_error = Error (code: "string option") (message: string)

text \<open>
  The parts of a request: \<^verbatim>\<open>{text}\<close>, \<^verbatim>\<open>{inlineData: {mimeType, data}}\<close> and
  \<^verbatim>\<open>{fileData: {fileUri, mimeType}}\<close>.
\<close>

datatype part = Text string | InlineData string string | FileData string string

text \<open>What the upload API may answer: nothing, or an object with an optional \<^verbatim>\<open>file\<close>.\<close>

record uploaded_file =
  uf_name :: "string option"
  uf_uri :: "string option"
  uf_fileUri :: "string option"
  uf_mimeType :: "string option"

datatype upload_response = NoResponse | Response "uploaded_file option" uploaded_file

text \<open>
  Everything the modules do to the outside is recorded in the order it happens. The
  \<open>tick\<close> counts the requests made so far; the environment answers the request made at a
  tick, so that two attempts on the same URL may differ.
\<close>

datatype event =
    HttpGet "string option"
  | Wait nat
  | Mkdtemp
  | WriteFile string
  | UploadFile string string string
  | Unlink string
  | Rm string
  | Warn string string

record world =
  tick :: nat
  trace :: "event list"
  paths :: "string list"

text \<open>
  The environment: the answer of \<^verbatim>\<open>axios.get\<close> (with \<^verbatim>\<open>Buffer.from\<close>) at a tick, the
  failure of a file-system call at a tick if it fails, the directory that
  \<^verbatim>\<open>fs.mkdtemp\<close> creates, the upload API's answer, the hexadecimal string of
  \<^verbatim>\<open>crypto.randomBytes(6)\<close>, and the library functions \<^verbatim>\<open>path.extname\<close>,
  \<^verbatim>\<open>buffer.toString('base64')\<close>, \<^verbatim>\<open>buffer.toString('utf8')\<close>. \<^verbatim>\<open>formatSize\<close> computes
  with floating-point logarithms and is a parameter too.
\<close>

record env =
  http_get :: "nat \<Rightarrow> string option \<Rightarrow> js_error + buffer"
  fs_fault :: "nat \<Rightarrow> js_error option"
  mkdtemp_dir :: "nat \<Rightarrow> string"
  upload_reply :: "nat \<Rightarrow> js_error + upload_response"
  random_hex :: "nat \<Rightarrow> string"
  extname :: "string \<Rightarrow> string"
  base64 :: "buffer \<Rightarrow> string"
  utf8 :: "buffer \<Rightarrow> string"
  formatSize :: "nat \<Rightarrow> string"

definition emit :: "event \<Rightarrow> world \<Rightarrow> world" where
  "emit ev w = w\<lparr>trace := trace w @ [ev]\<rparr>"

definition request :: "event \<Rightarrow> world \<Rightarrow> world" where
  "request ev w = w\<lparr>tick := tick w + 1, trace := trace w @ [ev]\<rparr>"

definition warn :: "string \<Rightarrow> string \<Rightarrow> world \<Rightarrow> world" where
  "warn tag detail w = emit (Warn tag detail) w"

definition wait :: "nat \<Rightarrow> world \<Rightarrow> world" where
  "wait ms w = emit (Wait ms) w"

subsection \<open>The fetcher\<close>

text \<open>
  The loop of \<^verbatim>\<open>fetchAsBuffer\<close> from \<open>attempt\<close> on; \<open>lastError\<close> is \<open>None\<close> while it is
  undefined. What the function throws in the end is \<open>lastError\<close>.
\<close>

function fetch_from ::
  "env \<Rightarrow> string option \<Rightarrow> nat \<Rightarrow> js_error option \<Rightarrow> world
     \<Rightarrow> (js_error option + buffer) \<times> world" where
  "fetch_from E url attempt lastError w =
     (if attempt \<le> RETRY_ATTEMPTS
      then (case http_get E (tick w) url of
              Inr data \<Rightarrow> (Inr data, request (HttpGet url) w)
            | Inl error \<Rightarrow>
                fetch_from E url (attempt + 1) (Some error)
                  (if attempt < RETRY_ATTEMPTS
                   then wait (RETRY_DELAY_MS * attempt) (request (HttpGet url) w)
                   else request (HttpGet url) w))
      else (Inl lastError, w))"
  by pat_completeness auto
termination
  by (relation "measure (\<lambda>(E, url, attempt, lastError, w). RETRY_ATTEMPTS + 1 - attempt)") auto

declare fetch_from.simps [simp del]

definition fetchAsBuffer :: "env \<Rightarrow> string option \<Rightarrow> world \<Rightarrow> (js_error option + buffer) \<times> world" where
  "fetchAsBuffer E url w = fetch_from E url 1 None w"

definition toBase64 :: "env \<Rightarrow> buffer \<Rightarrow> string" where
  "toBase64 E buf = base64 E buf"

subsection \<open>The upload client\<close>

definition safe_char :: "char \<Rightarrow> bool" where
  "safe_char c =
     (c \<in> set ''abcdefghijklmnopqrstuvwxyzABCDEFGHIJKLMNOPQRSTUVWXYZ0123456789_.-'')"

definition generateTempFilePath :: "env \<Rightarrow> string option \<Rightarrow> world \<Rightarrow> string" where
  "generateTempFilePath E name w =
     map (\<lambda>c. if safe_char c then c else CHR ''_'')
       (or_else name (''upload-'' @ random_hex E (tick w)))"

text \<open>
  \<^verbatim>\<open>path.join(tmpDir, fileName)\<close> for a directory without a trailing slash and a file name
  of safe characters: the name \<open>.\<close> is the directory itself and \<open>..\<close> its parent.
\<close>

definition dirname :: "string \<Rightarrow> string" where
  "dirname p = rev (tl (dropWhile (\<lambda>c. c \<noteq> CHR ''/'') (rev p)))"

definition path_join :: "string \<Rightarrow> string \<Rightarrow> string" where
  "path_join dir f =
     (if f = ''.'' then dir else if f = ''..'' then dirname dir else dir @ ''/'' @ f)"

definition inside :: "string \<Rightarrow> string \<Rightarrow> bool" where
  "inside dir p = (p = dir \<or> take (length dir + 1) p = dir @ ''/'')"

text \<open>
  The file-system calls. Each fails with the fault the environment holds for its tick,
  and then changes nothing; otherwise it has its effect on the set of paths.
  \<^verbatim>\<open>fs.unlink\<close> of a path that does not exist fails with \<open>ENOENT\<close>;
  \<^verbatim>\<open>fs.rm\<close> with \<^verbatim>\<open>recursive\<close> and \<^verbatim>\<open>force\<close> removes the directory and all below it.
\<close>

definition mkdtemp :: "env \<Rightarrow> world \<Rightarrow> (js_error + string) \<times> world" where
  "mkdtemp E w =
     (case fs_fault E (tick w) of
        Some e \<Rightarrow> (Inl e, request Mkdtemp w)
      | None \<Rightarrow> (Inr (mkdtemp_dir E (tick w)),
                 (request Mkdtemp w)\<lparr>paths := mkdtemp_dir E (tick w) # paths w\<rparr>))"

definition writeFile :: "env \<Rightarrow> string \<Rightarrow> buffer \<Rightarrow> world \<Rightarrow> (js_error + unit) \<times> world" where
  "writeFile E p buf w =
     (case fs_fault E (tick w) of
        Some e \<Rightarrow> (Inl e, request (WriteFile p) w)
      | None \<Rightarrow> (Inr (), (request (WriteFile p) w)\<lparr>paths := p # paths w\<rparr>))"

definition unlink :: "env \<Rightarrow> string \<Rightarrow> world \<Rightarrow> (js_error + unit) \<times> world" where
  "unlink E p w =
     (case fs_fault E (tick w) of
        Some e \<Rightarrow> (Inl e, request (Unlink p) w)
      | None \<Rightarrow>
          if p \<in> set (paths w)
          then (Inr (), (request (Unlink p) w)\<lparr>paths := removeAll p (paths w)\<rparr>)
          else (Inl (Error (Some ''ENOENT'') ''no such file or directory''),
                request (Unlink p) w))"

definition rm :: "env \<Rightarrow> string \<Rightarrow> world \<Rightarrow> (js_error + unit) \<times> world" where
  "rm E dir w =
     (case fs_fault E (tick w) of
        Some e \<Rightarrow> (Inl e, request (Rm dir) w)
      | None \<Rightarrow> (Inr (), (request (Rm dir) w)\<lparr>paths := filter (\<lambda>p. \<not> inside dir p) (paths w)\<rparr>))"

definition uploadFile ::
  "env \<Rightarrow> string \<Rightarrow> string \<Rightarrow> string \<Rightarrow> world \<Rightarrow> (js_error + upload_response) \<times> world" where
  "uploadFile E p mimeType displayName w =
     (upload_reply E (tick w), request (UploadFile p mimeType displayName) w)"

text \<open>
  The two \<^verbatim>\<open>try\<close>/\<^verbatim>\<open>catch\<close> statements of the \<^verbatim>\<open>finally\<close> block: an error of
  \<^verbatim>\<open>fs.unlink\<close> or \<^verbatim>\<open>fs.rm\<close> is caught, and logged unless its code is \<open>ENOENT\<close>.
\<close>

definition cleanup :: "env \<Rightarrow> string \<Rightarrow> string \<Rightarrow> world \<Rightarrow> world" where
  "cleanup E filePath tmpDir w =
     (let (r1, w1) = unlink E filePath w;
          w2 = (case r1 of
                  Inl error \<Rightarrow>
                    if code error \<noteq> Some ''ENOENT''
                    then warn ''[ATTACHMENTS] Failed to remove temp file:'' (message error) w1
                    else w1
                | Inr u \<Rightarrow> w1);
          (r2, w3) = rm E tmpDir w2
      in (case r2 of
            Inl error \<Rightarrow>
              if code error \<noteq> Some ''ENOENT''
              then warn ''[ATTACHMENTS] Failed to remove temp directory:'' (message error) w3
              else w3
          | Inr u \<Rightarrow> w3))"

text \<open>
  The body of the \<^verbatim>\<open>try\<close> block of \<^verbatim>\<open>uploadToGeminiFileAPI\<close>. \<open>handle\<close> picks the file
  handle from the uploaded file: \<^verbatim>\<open>name || uri || fileUri\<close> in the newer module,
  \<^verbatim>\<open>uri || fileUri || name\<close> in the Fuku module.
\<close>

definition handle :: "uploaded_file \<Rightarrow> string" where
  "handle f = or_else (uf_name f) (or_else (uf_uri f) (or_else (uf_fileUri f) []))"

definition handle_Fuku :: "uploaded_file \<Rightarrow> string" where
  "handle_Fuku f = or_else (uf_uri f) (or_else (uf_fileUri f) (or_else (uf_name f) []))"

definition upload_body ::
  "(uploaded_file \<Rightarrow> string) \<Rightarrow> env \<Rightarrow> string \<Rightarrow> string \<Rightarrow> string option \<Rightarrow> string \<Rightarrow> world
     \<Rightarrow> (js_error + part) \<times> world" where
  "upload_body pick E filePath mimeType name fileName w =
     (case uploadFile E filePath (or_str mimeType ''application/octet-stream'')
             (or_else name fileName) w of
        (Inl e, w1) \<Rightarrow> (Inl e, w1)
      | (Inr uploadResponse, w1) \<Rightarrow>
          (let uploadedFile =
                 (case uploadResponse of
                    NoResponse \<Rightarrow> None
                  | Response None own \<Rightarrow> Some own
                  | Response (Some f) own \<Rightarrow> Some f);
               fileHandle = (case uploadedFile of None \<Rightarrow> [] | Some f \<Rightarrow> pick f)
           in if fileHandle = []
              then (Inl (Error None ''Upload response did not include a file URI.''), w1)
              else (Inr (FileData fileHandle
                      (or_str mimeType
                         (or_else (case uploadedFile of None \<Rightarrow> None | Some f \<Rightarrow> uf_mimeType f)
                            ''application/octet-stream''))), w1)))"

definition upload_with ::
  "(uploaded_file \<Rightarrow> string) \<Rightarrow> env \<Rightarrow> buffer \<Rightarrow> string \<Rightarrow> string option \<Rightarrow> string option \<Rightarrow> world
     \<Rightarrow> (js_error + part) \<times> world" where
  "upload_with pick E buf mimeType name apiKey w =
     (if \<not> truthy apiKey then (Inl (Error None ''Missing Gemini API key for file upload.''), w)
      else
        (case mkdtemp E w of
           (Inl e, w1) \<Rightarrow> (Inl e, w1)
         | (Inr tmpDir, w1) \<Rightarrow>
             (let fileName = generateTempFilePath E name w1;
                  filePath = path_join tmpDir fileName
              in (case writeFile E filePath buf w1 of
                    (Inl e, w2) \<Rightarrow> (Inl e, w2)
                  | (Inr u, w2) \<Rightarrow>
                      (let (r, w3) = upload_body pick E filePath mimeType name fileName w2
                       in (r, cleanup E filePath tmpDir w3))))))"

definition uploadToGeminiFileAPI ::
  "env \<Rightarrow> buffer \<Rightarrow> string \<Rightarrow> string option \<Rightarrow> string option \<Rightarrow> world
     \<Rightarrow> (js_error + part) \<times> world" where
  "uploadToGeminiFileAPI = upload_with handle"

definition uploadToGeminiFileAPI_Fuku ::
  "env \<Rightarrow> buffer \<Rightarrow> string \<Rightarrow> string option \<Rightarrow> string option \<Rightarrow> world
     \<Rightarrow> (js_error + part) \<times> world" where
  "uploadToGeminiFileAPI_Fuku = upload_with handle_Fuku"

subsection \<open>The part builder\<close>

text \<open>
  An attachment as the builder receives it; \<open>size'\<close> is the field \<^verbatim>\<open>size\<close>. A field
  that is \<open>None\<close> is undefined.
\<close>

record item =
  url :: "string option"
  name :: "string option"
  mimeType :: "string option"
  size' :: js_value

definition or_undefined :: "string option \<Rightarrow> string" where
  "or_undefined a = (case a of None \<Rightarrow> [] | Some s \<Rightarrow> s)"

definition normalizeMimeType :: "env \<Rightarrow> string option \<Rightarrow> string option \<Rightarrow> string" where
  "normalizeMimeType E nm mt =
     (if or_undefined mt \<noteq> [] then or_undefined mt
      else table_or MIME_BY_EXTENSION (toLowerCase (extname E (or_undefined nm)))
             ''application/octet-stream'')"

definition normalizeMimeType_Fuku :: "env \<Rightarrow> string option \<Rightarrow> string option \<Rightarrow> string" where
  "normalizeMimeType_Fuku E nm mt =
     (if or_undefined mt \<noteq> [] then or_undefined mt
      else table_or MIME_BY_EXTENSION_Fuku (toLowerCase (extname E (or_undefined nm))) [])"

definition isImageAttachment_Fuku :: "env \<Rightarrow> string \<Rightarrow> string \<Rightarrow> bool" where
  "isImageAttachment_Fuku E nm mt =
     (if toLowerCase (extname E nm) \<in> set IMAGE_EXTS_Fuku then True
      else if startsWith mt ''image/'' then True
      else False)"

definition isTextLikeAttachment :: "env \<Rightarrow> string option \<Rightarrow> string \<Rightarrow> bool" where
  "isTextLikeAttachment E nm mt =
     (if startsWith mt ''text/'' then True
      else if toLowerCase (extname E (or_undefined nm)) \<in> set TEXT_EXTS then True
      else if mt = ''application/json'' \<or> mt = ''application/xml'' then True
      else False)"

text \<open>\<^verbatim>\<open>size > 0\<close> for a value that is a number.\<close>

fun above_zero :: "js_value \<Rightarrow> bool" where
  "above_zero (JNum x) = num_gt x (number_of_nat 0)"
| "above_zero v = False"

fun as_number :: "js_value \<Rightarrow> js_number" where
  "as_number (JNum x) = x"
| "as_number v = NaN"

text \<open>
  The size that \<^verbatim>\<open>maybeInlineImage\<close> compares with the ceiling: the declared size when
  it is a finite number above zero (any number above zero in the Fuku module), the
  length of the fetched buffer otherwise.
\<close>

definition actualSize :: "js_value \<Rightarrow> buffer \<Rightarrow> js_number" where
  "actualSize sz buf =
     (if isFinite sz \<and> above_zero sz then as_number sz else number_of_nat (length buf))"

definition actualSize_Fuku :: "js_value \<Rightarrow> buffer \<Rightarrow> js_number" where
  "actualSize_Fuku sz buf =
     (if is_number sz \<and> above_zero sz then as_number sz else number_of_nat (length buf))"

definition maybeInlineImage :: "env \<Rightarrow> buffer \<Rightarrow> string \<Rightarrow> js_value \<Rightarrow> js_number \<Rightarrow> part option" where
  "maybeInlineImage E buf mt sz maxInlineSize =
     (if \<not> startsWith mt ''image/'' then None
      else if num_gt (actualSize sz buf) maxInlineSize then None
      else Some (InlineData mt (toBase64 E buf)))"

definition maybeInlineImage_Fuku :: "env \<Rightarrow> buffer \<Rightarrow> string \<Rightarrow> js_value \<Rightarrow> part option" where
  "maybeInlineImage_Fuku E buf mt sz =
     (if \<not> startsWith mt ''image/'' then None
      else if num_gt (actualSize_Fuku sz buf) (number_of_nat INLINE_LIMIT_IMAGE_BYTES) then None
      else Some (InlineData mt (toBase64 E buf)))"

text \<open>
  One pass of a loop body either completes or throws; in both cases it has pushed some
  parts and changed the world. A \<^verbatim>\<open>try\<close> statement with a \<^verbatim>\<open>catch\<close> clause completes
  with what the handler pushes after the parts pushed before the error.
\<close>

datatype completion = Normal | Thrown "js_error option"

type_synonym outcome = "completion \<times> part list \<times> world"

definition try_catch :: "outcome \<Rightarrow> (js_error option \<Rightarrow> world \<Rightarrow> part list \<times> world) \<Rightarrow> outcome" where
  "try_catch r handler =
     (case r of
        (Normal, ps, w) \<Rightarrow> (Normal, ps, w)
      | (Thrown error, ps, w) \<Rightarrow> (let (qs, w') = handler error w in (Normal, ps @ qs, w')))"

text \<open>\<^verbatim>\<open>error?.message || error\<close> as the console prints it.\<close>

definition err_detail :: "js_error option \<Rightarrow> string" where
  "err_detail error =
     (case error of None \<Rightarrow> ''undefined'' | Some e \<Rightarrow> or_str (message e) ''Error'')"

definition too_large_notice :: "item \<Rightarrow> string \<Rightarrow> string" where
  "too_large_notice img mt =
     ''Attached image '' @ or_else (name img) [] @ '' ('' @ mt
       @ '') was too large to inline and could not be uploaded.''"

definition image_failed_notice :: "item \<Rightarrow> string" where
  "image_failed_notice img =
     ''Attached image could not be processed ('' @ or_else (name img) ''image attachment'' @ '').''"

definition file_failed_notice :: "item \<Rightarrow> string" where
  "file_failed_notice file =
     ''Attached file received but preview unavailable: '' @ or_else (name file) ''file attachment''
       @ '' ('' @ or_else (mimeType file) ''unknown type'' @ '').''"

definition image_catch :: "item \<Rightarrow> js_error option \<Rightarrow> world \<Rightarrow> part list \<times> world" where
  "image_catch img error w =
     ([Text (image_failed_notice img)],
      warn ''[ATTACHMENTS] Image handling error:'' (err_detail error) w)"

definition file_catch :: "item \<Rightarrow> js_error option \<Rightarrow> world \<Rightarrow> part list \<times> world" where
  "file_catch file error w =
     ([Text (file_failed_notice file)],
      warn ''[ATTACHMENTS] File handling error:'' (err_detail error) w)"

text \<open>The \<^verbatim>\<open>try\<close> block of the img loop, in the newer module and in the Fuku module.\<close>

definition image_mime :: "env \<Rightarrow> item \<Rightarrow> string" where
  "image_mime E img =
     or_else (mimeType img)
       (or_str (normalizeMimeType E (name img) (mimeType img)) ''image/png'')"

definition image_try :: "env \<Rightarrow> string option \<Rightarrow> js_number \<Rightarrow> item \<Rightarrow> world \<Rightarrow> outcome" where
  "image_try E apiKey maxInlineSize img w =
     (case fetchAsBuffer E (url img) w of
        (Inl error, w1) \<Rightarrow> (Thrown error, [], w1)
      | (Inr buf, w1) \<Rightarrow>
          (case maybeInlineImage E buf (image_mime E img) (size' img) maxInlineSize of
             Some inlinePart \<Rightarrow> (Normal, [inlinePart], w1)
           | None \<Rightarrow>
               if \<not> truthy apiKey
               then (Normal, [Text (too_large_notice img (image_mime E img))],
                     warn ''[ATTACHMENTS] Image exceeds inline limit and no upload path available.''
                       (or_else (name img) []) w1)
               else
                 (case uploadToGeminiFileAPI E buf
                         (or_str (image_mime E img) ''application/octet-stream'')
                         (name img) apiKey w1 of
                    (Inl error, w2) \<Rightarrow> (Thrown (Some error), [], w2)
                  | (Inr uploadedPart, w2) \<Rightarrow> (Normal, [uploadedPart], w2))))"

definition image_try_Fuku :: "env \<Rightarrow> string option \<Rightarrow> item \<Rightarrow> world \<Rightarrow> outcome" where
  "image_try_Fuku E apiKey img w =
     (case fetchAsBuffer E (url img) w of
        (Inl error, w1) \<Rightarrow> (Thrown error, [], w1)
      | (Inr buf, w1) \<Rightarrow>
          (let mt = or_else (mimeType img) (normalizeMimeType_Fuku E (name img) None)
           in (case maybeInlineImage_Fuku E buf (or_str mt ''image/png'') (size' img) of
                 Some inlinePart \<Rightarrow> (Normal, [inlinePart], w1)
               | None \<Rightarrow>
                   (case uploadToGeminiFileAPI_Fuku E buf (or_str mt ''application/octet-stream'')
                           (name img) apiKey w1 of
                      (Inl error, w2) \<Rightarrow> (Thrown (Some error), [], w2)
                    | (Inr uploadedPart, w2) \<Rightarrow> (Normal, [uploadedPart], w2)))))"

text \<open>
  The \<^verbatim>\<open>try\<close> block of the file loop; the two modules differ in \<^verbatim>\<open>normalizeMimeType\<close>
  and in the upload client.
\<close>

definition file_try_with ::
  "(env \<Rightarrow> string option \<Rightarrow> string option \<Rightarrow> string)
     \<Rightarrow> (env \<Rightarrow> buffer \<Rightarrow> string \<Rightarrow> string option \<Rightarrow> string option \<Rightarrow> world
           \<Rightarrow> (js_error + part) \<times> world)
     \<Rightarrow> env \<Rightarrow> string option \<Rightarrow> item \<Rightarrow> world \<Rightarrow> outcome" where
  "file_try_with normalizer upload E apiKey file w =
     (case fetchAsBuffer E (url file) w of
        (Inl error, w1) \<Rightarrow> (Thrown error, [], w1)
      | (Inr buf, w1) \<Rightarrow>
          (let mt = or_else (mimeType file)
                      (or_str (normalizer E (name file) None) ''application/octet-stream'');
               label = or_else (name file) ''file attachment'';
               descriptor = label @ '' ('' @ mt @ '', '' @ formatSize E (length buf) @ '')'';
               pushed =
                 [Text (''Attached file: '' @ descriptor @ ''.'')]
                 @ (if isTextLikeAttachment E (name file) mt \<and> length buf \<le> INLINE_LIMIT_TEXT_BYTES
                    then [Text (''Contents of '' @ label @ '' (truncated to ''
                                 @ digits INLINE_LIMIT_TEXT_BYTES @ '' bytes if necessary):''
                                 @ [CHR 0x0A, CHR 0x0A] @ utf8 E buf)]
                    else [])
           in if truthy apiKey
              then (case upload E buf mt (Some label) apiKey w1 of
                      (Inl error, w2) \<Rightarrow> (Thrown (Some error), pushed, w2)
                    | (Inr uploadedPart, w2) \<Rightarrow> (Normal, pushed @ [uploadedPart], w2))
              else (Normal, pushed,
                    warn ''[ATTACHMENTS] Gemini API key missing; file upload skipped for'' label w1)))"

text \<open>The loop bodies: the newer module skips an attachment without a URL.\<close>

definition image_step :: "env \<Rightarrow> string option \<Rightarrow> js_number \<Rightarrow> item \<Rightarrow> world \<Rightarrow> outcome" where
  "image_step E apiKey maxInlineSize img w =
     (if \<not> truthy (url img) then (Normal, [], w)
      else try_catch (image_try E apiKey maxInlineSize img w) (image_catch img))"

definition file_step :: "env \<Rightarrow> string option \<Rightarrow> item \<Rightarrow> world \<Rightarrow> outcome" where
  "file_step E apiKey file w =
     (if \<not> truthy (url file) then (Normal, [], w)
      else try_catch (file_try_with normalizeMimeType uploadToGeminiFileAPI E apiKey file w)
             (file_catch file))"

definition image_step_Fuku :: "env \<Rightarrow> string option \<Rightarrow> item \<Rightarrow> world \<Rightarrow> outcome" where
  "image_step_Fuku E apiKey img w =
     try_catch (image_try_Fuku E apiKey img w) (image_catch img)"

definition file_step_Fuku :: "env \<Rightarrow> string option \<Rightarrow> item \<Rightarrow> world \<Rightarrow> outcome" where
  "file_step_Fuku E apiKey file w =
     try_catch (file_try_with normalizeMimeType_Fuku uploadToGeminiFileAPI_Fuku E apiKey file w)
       (file_catch file)"

text \<open>
  \<^verbatim>\<open>for (const x of xs) { ... }\<close>: the passes in order; a pass that throws ends the loop
  and the function. \<open>parts\<close> is the array built so far.
\<close>

fun for_each :: "('a \<Rightarrow> world \<Rightarrow> outcome) \<Rightarrow> 'a list \<Rightarrow> part list \<Rightarrow> world \<Rightarrow> outcome" where
  "for_each step [] parts w = (Normal, parts, w)"
| "for_each step (x # xs) parts w =
     (case step x w of
        (Normal, ps, w1) \<Rightarrow> for_each step xs (parts @ ps) w1
      | (Thrown error, ps, w1) \<Rightarrow> (Thrown error, parts @ ps, w1))"

definition loops ::
  "(item \<Rightarrow> world \<Rightarrow> outcome) \<Rightarrow> (item \<Rightarrow> world \<Rightarrow> outcome) \<Rightarrow> item list \<Rightarrow> item list
     \<Rightarrow> part list \<Rightarrow> world \<Rightarrow> outcome" where
  "loops istep fstep images files parts w =
     (case for_each istep images parts w of
        (Normal, ps, w1) \<Rightarrow> for_each fstep files ps w1
      | (Thrown error, ps, w1) \<Rightarrow> (Thrown error, ps, w1))"

definition finish :: "outcome \<Rightarrow> (js_error option + part list) \<times> world" where
  "finish r =
     (case r of
        (Normal, parts, w) \<Rightarrow> (Inr (if length parts = 0 then [Text []] else parts), w)
      | (Thrown error, parts, w) \<Rightarrow> (Inl error, w))"

definition safe_text :: "js_value \<Rightarrow> string" where
  "safe_text text = (case text of JStr s \<Rightarrow> s | _ \<Rightarrow> [])"

text \<open>
  \<^verbatim>\<open>buildGeminiParts({text, images, files, apiKey, maxInlineSize})\<close> of the newer module;
  \<open>maxInlineSize\<close> is \<open>None\<close> when the caller leaves it out.
\<close>

definition inline_limit :: "js_number option \<Rightarrow> js_number" where
  "inline_limit maxInlineSize =
     (case maxInlineSize of None \<Rightarrow> number_of_nat 4000000 | Some m \<Rightarrow> m)"

definition announce :: "string option \<Rightarrow> world \<Rightarrow> world" where
  "announce apiKey w =
     (if \<not> truthy apiKey
      then warn ''[ATTACHMENTS] No Gemini apiKey: uploads will be skipped.'' [] w
      else w)"

definition buildGeminiParts ::
  "env \<Rightarrow> js_value \<Rightarrow> item list \<Rightarrow> item list \<Rightarrow> string option \<Rightarrow> js_number option \<Rightarrow> world
     \<Rightarrow> (js_error option + part list) \<times> world" where
  "buildGeminiParts E text images files apiKey maxInlineSize w =
     finish (loops (image_step E apiKey (inline_limit maxInlineSize)) (file_step E apiKey)
               images files [Text (safe_text text)] (announce apiKey w))"

text \<open>\<^verbatim>\<open>buildGeminiParts({text, images, files, apiKey})\<close> of the Fuku module.\<close>

definition first_parts_Fuku :: "js_value \<Rightarrow> part list" where
  "first_parts_Fuku text =
     (if trim_nonempty (safe_text text) then [Text (safe_text text)] else [])"

definition buildGeminiParts_Fuku ::
  "env \<Rightarrow> js_value \<Rightarrow> item list \<Rightarrow> item list \<Rightarrow> string option \<Rightarrow> world
     \<Rightarrow> (js_error option + part list) \<times> world" where
  "buildGeminiParts_Fuku E text images files apiKey w =
     finish (loops (image_step_Fuku E apiKey) (file_step_Fuku E apiKey) images files
               (first_parts_Fuku text) w)"

subsection \<open>What the cleanup logs\<close>

text \<open>
  The log of one cleanup call whose fault (if any) is \<open>fault\<close>: one warning with the
  error's message, unless the call did not fail or failed with the code \<open>ENOENT\<close>.
\<close>

definition cleanup_log :: "string \<Rightarrow> js_error option \<Rightarrow> event list" where
  "cleanup_log tag fault =
     (case fault of
        None \<Rightarrow> []
      | Some e \<Rightarrow> if code e \<noteq> Some ''ENOENT'' then [Warn tag (message e)] else [])"

subsection \<open>The image test of the Fuku module\<close>

text \<open>
  \<^verbatim>\<open>bots/Fuku/utils/attachments.js\<close> has no classifier: its \<^verbatim>\<open>parseDiscordAttachments\<close>
  puts an attachment among the images when \<^verbatim>\<open>isImageAttachment\<close> holds of its name and of
  the MIME type that \<^verbatim>\<open>normalizeMimeType\<close> resolves from \<^verbatim>\<open>attachment.contentType || ''\<close>.
  \<open>providedMime_Fuku\<close> is that operand when it is a string; it is \<open>None\<close> for a number
  other than 0 and NaN, which \<^verbatim>\<open>||\<close> and \<^verbatim>\<open>normalizeMimeType\<close> pass on as it is, so that
  \<^verbatim>\<open>mimeType?.startsWith\<close> is not a function when the extension test has not answered
  before. Neither function reads \<^verbatim>\<open>width\<close> or \<^verbatim>\<open>height\<close>.
\<close>

fun providedMime_Fuku :: "js_value \<Rightarrow> string option" where
  "providedMime_Fuku (JStr s) = Some s"
| "providedMime_Fuku (JNum (Finite neg s e)) = (if s = 0 then Some [] else None)"
| "providedMime_Fuku (JNum (Infinity neg)) = None"
| "providedMime_Fuku v = Some []"

definition parsed_as_image_Fuku :: "env \<Rightarrow> attachment \<Rightarrow> js_error + bool" where
  "parsed_as_image_Fuku E a =
     (let name = or_else (att_name a) ''''
      in case providedMime_Fuku (contentType a) of
           Some providedMime \<Rightarrow>
             Inr (isImageAttachment_Fuku E name
                    (normalizeMimeType_Fuku E (Some name) (Some providedMime)))
         | None \<Rightarrow>
             if toLowerCase (extname E name) \<in> set IMAGE_EXTS_Fuku then Inr True
             else Inl (Error None ''mimeType?.startsWith is not a function''))"

text \<open>
  The extension that the Fuku module tests: \<^verbatim>\<open>path.extname\<close> of the name, in lower case.
\<close>

definition extension_Fuku :: "env \<Rightarrow> attachment \<Rightarrow> string" where
  "extension_Fuku E a = toLowerCase (extname E (or_else (att_name a) ''''))"

subsection \<open>A concrete environment\<close>

text \<open>
  An environment in which the URL of \<open>a.png\<close> never answers and every other URL answers
  with the seven bytes \<open>PNGDATA\<close>; the file system has no fault and the upload API
  answers with a file handle.
\<close>

definition sample_env :: env where
  "sample_env =
     \<lparr>http_get = (\<lambda>t u. if u = Some ''https://cdn.example/a.png''
                          then Inl (Error (Some ''ECONNRESET'') ''socket hang up'')
                          else Inr ''PNGDATA''),
      fs_fault = (\<lambda>t. None),
      mkdtemp_dir = (\<lambda>t. ''/tmp/gemini-upload-Ab12Cd''),
      upload_reply = (\<lambda>t. Inr (Response None
         \<lparr>uf_name = Some ''files/abc'', uf_uri = Some ''https://files.example/abc'',
          uf_fileUri = None, uf_mimeType = None\<rparr>)),
      random_hex = (\<lambda>t. ''0a1b2c3d4e5f''),
      extname = (\<lambda>n. if n \<in> set [''a.png'', ''b.png'', ''big.png''] then ''.png'' else []),
      base64 = (\<lambda>b. ''UE5HREFUQQ==''),
      utf8 = (\<lambda>b. b),
      formatSize = (\<lambda>n. digits n @ '' B'')\<rparr>"

definition new_world :: world where
  "new_world = \<lparr>tick = 0, trace = [], paths = []\<rparr>"

definition image_a :: item where
  "image_a = \<lparr>url = Some ''https://cdn.example/a.png'', name = Some ''a.png'',
               mimeType = Some ''image/png'', size' = JNum (number_of_nat 7)\<rparr>"

definition image_b :: item where
  "image_b = \<lparr>url = Some ''https://cdn.example/b.png'', name = Some ''b.png'',
               mimeType = Some ''image/png'', size' = JNum (number_of_nat 7)\<rparr>"

definition image_big :: item where
  "image_big = \<lparr>url = Some ''https://cdn.example/big.png'', name = Some ''big.png'',
                 mimeType = Some ''image/png'', size' = JNum (number_of_nat 9000000)\<rparr>"

text \<open>The world after the three failed requests for \<open>a.png\<close> without an API key.\<close>

definition after_a :: world where
  "after_a = \<lparr>tick = 3,
     trace = [Warn ''[ATTACHMENTS] No Gemini apiKey: uploads will be skipped.'' [],
              HttpGet (Some ''https://cdn.example/a.png''), Wait 500,
              HttpGet (Some ''https://cdn.example/a.png''), Wait 1000,
              HttpGet (Some ''https://cdn.example/a.png'')],
     paths = []\<rparr>"

text \<open>
  The same environment, except that the file-system call at tick 3 (the \<^verbatim>\<open>fs.unlink\<close> of
  an upload that starts at tick 0) fails with \<open>ENOENT\<close>; and the world after the request
  for \<open>big.png\<close> without an API key.
\<close>

definition enoent_env :: env where
  "enoent_env = sample_env\<lparr>fs_fault :=
     (\<lambda>t. if t = 3 then Some (Error (Some ''ENOENT'') ''ENOENT: no such file or directory, unlink'')
          else None)\<rparr>"


text \<open>
  A video that declares its dimensions, a drawing with no declared MIME type, and the
  environment in which \<^verbatim>\<open>path.extname\<close> answers for their names and for \<open>photo.PNG\<close>.
\<close>

definition clip_with_dimensions :: attachment where
  "clip_with_dimensions = \<lparr>att_name = Some ''clip.mp4'', contentType = JStr ''video/mp4'',
      att_size = JNum (number_of_nat 2048), width = JNum (number_of_nat 640),
      height = JNum (number_of_nat 480), att_url = Some ''https://cdn.example/clip.mp4'',
      proxyURL = None\<rparr>"

definition drawing_svg :: attachment where
  "drawing_svg = \<lparr>att_name = Some ''x.svg'', contentType = JNull,
      att_size = JNum (number_of_nat 2048), width = JNull, height = JNull,
      att_url = Some ''https://cdn.example/x.svg'', proxyURL = None\<rparr>"

definition names_env :: env where
  "names_env = sample_env\<lparr>extname :=
     (\<lambda>n. if n = ''clip.mp4'' then ''.mp4'' else if n = ''x.svg'' then ''.svg''
          else if n = ''photo.PNG'' then ''.PNG'' else [])\<rparr>"

section \<open>Lemmas about the store\<close>

lemma shift_while_drop: "shift_while keep ms = drop (length ms - keep) ms"
proof (induction keep ms rule: shift_while.induct)
  case (1 keep ms)
  show ?case
  proof (cases "keep < length ms")
    case True
    then obtain x xs where ms: "ms = x # xs" by (cases ms) auto
    have "shift_while keep ms = shift_while keep (tl ms)"
      using True by (subst shift_while.simps) simp
    also have "\<dots> = drop (length (tl ms) - keep) (tl ms)"
      using 1 True by simp
    also have "\<dots> = drop (length ms - keep) ms"
      using True ms by (simp add: Suc_diff_le)
    finally show ?thesis .
  next
    case False
    then show ?thesis by (subst shift_while.simps) simp
  qed
qed

lemma sql_and_True: "sql_and a b = Some True \<longleftrightarrow> a = Some True \<and> b = Some True"
  by (cases "(a, b)" rule: sql_and.cases) auto

lemma sql_or_True: "sql_or a b = Some True \<longleftrightarrow> a = Some True \<or> b = Some True"
  by (cases "(a, b)" rule: sql_or.cases) auto

lemma sql_eq_True: "sql_eq a b = Some True \<longleftrightarrow> a \<noteq> None \<and> a = b"
  by (cases "(a, b)" rule: sql_eq.cases) auto

lemma where_key_iff: "where_key u g c r \<longleftrightarrow> user_id r = u \<and> guild_id r = g \<and> channel_id r = c"
  unfolding where_key_def sql_is_null_def sql_and_True sql_or_True sql_eq_True
  by auto

lemma order_desc_sorted:
  "sorted (map (\<lambda>r. (ts r, rowid r)) rs) \<Longrightarrow> order_desc rs = rev rs"
  by (simp add: order_desc_def sort_key_id_if_sorted)

lemma filter_notin_take:
  assumes "distinct xs"
  shows "filter (\<lambda>x. x \<notin> set (take m xs)) xs = drop m xs"
proof -
  have "distinct (take m xs @ drop m xs)" using assms by simp
  then have disj: "set (take m xs) \<inter> set (drop m xs) = {}" by (simp only: distinct_append) 
  have a: "filter (\<lambda>x. x \<notin> set (take m xs)) (take m xs) = []"
    by (simp add: filter_empty_conv)
  have b: "filter (\<lambda>x. x \<notin> set (take m xs)) (drop m xs) = drop m xs"
    using disj by (auto simp: filter_id_conv)
  have "filter (\<lambda>x. x \<notin> set (take m xs)) (take m xs @ drop m xs) = drop m xs"
    unfolding filter_append a b by simp
  then show ?thesis by simp
qed

lemma normalizeId_id [simp]: "normalizeId v = v"
  by (cases v) (simp_all add: normalizeId_def)

lemma table_ok_pairs:
  assumes "table_ok rs"
  shows "sorted (map (\<lambda>r. (ts r, rowid r)) rs)"
proof -
  have a: "sorted_wrt (\<lambda>x y. rowid x < rowid y) rs" and b: "sorted_wrt (\<lambda>x y. ts x \<le> ts y) rs"
    using assms by (simp_all add: table_ok_def sorted_wrt_map)
  have "sorted_wrt (\<lambda>x y. (ts x, rowid x) \<le> (ts y, rowid y)) rs"
    using a b by (induction rs) auto
  then show ?thesis by (simp add: sorted_wrt_map)
qed

lemma table_ok_distinct: "table_ok rs \<Longrightarrow> distinct (map rowid rs)"
  by (simp add: table_ok_def strict_sorted_iff)

lemma table_ok_filter: "table_ok rs \<Longrightarrow> table_ok (filter P rs)"
  unfolding table_ok_def sorted_wrt_map by (simp add: sorted_wrt_filter)

lemma rowid_lt_next: "r \<in> set rs \<Longrightarrow> rowid r < next_rowid rs"
  unfolding next_rowid_def by (induction rs) auto

lemma table_ok_insert:
  assumes "table_ok rs" and "\<forall>r\<in>set rs. ts r \<le> t"
  shows "table_ok (insertStmt u g c rl ct t rs)"
  using assms unfolding table_ok_def insertStmt_def
  by (auto simp: sorted_wrt_append sorted_append rowid_lt_next)

lemma trim_keeps_newest:
  assumes ok: "table_ok rs"
  shows "filter (where_key u g c) (trimStmt u g c keep rs)
         = drop (length (filter (where_key u g c) rs) - keep) (filter (where_key u g c) rs)"
proof -
  let ?K = "where_key u g c"
  let ?ks = "filter ?K rs"
  let ?m = "length ?ks - keep"
  have okk: "table_ok ?ks" using ok by (rule table_ok_filter)
  have ord: "order_desc ?ks = rev ?ks"
    using table_ok_pairs [OF okk] by (rule order_desc_sorted)
  have dk: "distinct (map rowid ?ks)" using okk by (rule table_ok_distinct)
  then have dks: "distinct ?ks" by (rule distinct_map [THEN iffD1, THEN conjunct1])
  have inj: "inj_on rowid (set ?ks)" using dk by (simp add: distinct_map)
  have victims: "drop keep (rev ?ks) = rev (take ?m ?ks)"
    by (simp add: drop_rev)
  have mem: "rowid r \<in> rowid ` set (take ?m ?ks) \<longleftrightarrow> r \<in> set (take ?m ?ks)"
    if "r \<in> set ?ks" for r
  proof
    assume "rowid r \<in> rowid ` set (take ?m ?ks)"
    then obtain r' where r': "r' \<in> set (take ?m ?ks)" "rowid r = rowid r'" by blast
    from r'(1) have "r' \<in> set ?ks" by (rule in_set_takeD)
    with inj that r'(2) have "r = r'" by (simp add: inj_on_def)
    with r'(1) show "r \<in> set (take ?m ?ks)" by simp
  next
    assume "r \<in> set (take ?m ?ks)"
    then show "rowid r \<in> rowid ` set (take ?m ?ks)" by (rule imageI)
  qed
  have vs: "set (map rowid (drop keep (order_desc ?ks))) = rowid ` set (take ?m ?ks)"
    unfolding ord victims by simp
  have comm: "filter ?K (filter Q rs) = filter Q ?ks" for Q
    by (induction rs) simp_all
  have "filter ?K (trimStmt u g c keep rs)
        = filter (\<lambda>r. rowid r \<notin> rowid ` set (take ?m ?ks)) ?ks"
    unfolding trimStmt_def Let_def vs by (rule comm)
  also have "\<dots> = filter (\<lambda>r. r \<notin> set (take ?m ?ks)) ?ks"
    by (rule filter_cong [OF refl]) (simp only: mem)
  also have "\<dots> = drop ?m ?ks" using dks by (rule filter_notin_take)
  finally show ?thesis .
qed



lemma select_newest:
  assumes ok: "table_ok rs"
  shows "rev (selectStmt u g c limit rs)
         = drop (length (filter (where_key u g c) rs) - limit)
             (map select_columns (filter (where_key u g c) rs))"
proof -
  let ?ks = "filter (where_key u g c) rs"
  have ord: "order_desc ?ks = rev ?ks"
    using table_ok_pairs [OF table_ok_filter [OF ok]] by (rule order_desc_sorted)
  have "rev (selectStmt u g c limit rs) = map select_columns (rev (take limit (rev ?ks)))"
    unfolding selectStmt_def ord by (rule rev_map)
  also have "rev (take limit (rev ?ks)) = drop (length ?ks - limit) ?ks"
    by (simp add: take_rev)
  finally show ?thesis by (simp add: drop_map)
qed


lemma where_key_new_row:
  "where_key u g c \<lparr>role = rl, content = ct, ts = t, rowid = i, user_id = u, guild_id = g, channel_id = c\<rparr>"
  by (simp add: where_key_iff)

lemma push_bucket:
  assumes "clock_ok s [now]"
  shows "bucket (pushMessage hl now u g c rl ct keep s) u g c
         = drop (length (bucket s u g c) + 1 - normalizedCount hl keep)
             (bucket s u g c @ [\<lparr>role = rl, content = ct, ts = now\<rparr>])"
proof (cases "useMemoryStore s")
  case True
  then show ?thesis
    by (simp add: bucket_def pushMessage_def Let_def shift_while_drop normalizedCount_def
        split: option.split)
next
  case False
  let ?rs = "messages s"
  let ?ins = "insertStmt u g c rl ct now ?rs"
  from assms False have ok: "table_ok ?rs" and le: "\<forall>r\<in>set ?rs. ts r \<le> now"
    by (auto simp: clock_ok_def sorted_append)
  have oki: "table_ok ?ins" using ok le by (rule table_ok_insert)
  have fi: "filter (where_key u g c) ?ins
            = filter (where_key u g c) ?rs
              @ [\<lparr>role = rl, content = ct, ts = now, rowid = next_rowid ?rs,
                  user_id = u, guild_id = g, channel_id = c\<rparr>]"
    by (simp add: insertStmt_def where_key_new_row)
  have "bucket (pushMessage hl now u g c rl ct keep s) u g c
        = map select_columns (filter (where_key u g c)
            (trimStmt u g c (normalizedCount hl keep) ?ins))"
    using False by (simp add: bucket_def pushMessage_def Let_def normalizedCount_def)
  also have "\<dots> = map select_columns
      (drop (length (filter (where_key u g c) ?ins) - normalizedCount hl keep)
         (filter (where_key u g c) ?ins))"
    by (simp only: trim_keeps_newest [OF oki])
  also have "\<dots> = drop (length (filter (where_key u g c) ?ins) - normalizedCount hl keep)
         (map select_columns (filter (where_key u g c) ?ins))"
    by (simp only: drop_map)
  also have "\<dots> = drop (length (bucket s u g c) + 1 - normalizedCount hl keep)
             (bucket s u g c @ [\<lparr>role = rl, content = ct, ts = now\<rparr>])"
    using False by (simp add: fi bucket_def select_columns_def)
  finally show ?thesis .
qed


lemma get_bucket:
  assumes "clock_ok s []"
  shows "getLastMessages hl u g c limit s
         = drop (length (bucket s u g c) - normalizedCount hl limit) (bucket s u g c)"
proof (cases "useMemoryStore s")
  case True
  then show ?thesis
    by (simp add: bucket_def getLastMessages_def Let_def normalizedCount_def)
next
  case False
  with assms have ok: "table_ok (messages s)" by (simp add: clock_ok_def)
  show ?thesis
    using False by (simp add: bucket_def getLastMessages_def Let_def normalizedCount_def
        select_newest [OF ok])
qed

lemma entry_eta [simp]: "\<lparr>role = role m, content = content m, ts = ts m\<rparr> = (m::entry)"
  by (cases m) simp




lemmas js_eval = normalizeCount_def parseInt_def number_of_nat_def
  finite_to_string_def strip_zeros.simps digits.simps digit_char_def is_space_def
  is_digit_def digit_val_def double_overflow_def scaled_def Let_def


lemma DEFAULT_KEEP_unset: "DEFAULT_KEEP None = 20"
  by (simp add: DEFAULT_KEEP_def js_eval)

lemma normalizedCount_unset: "normalizedCount None JUndefined = 20"
  by (simp add: normalizedCount_def DEFAULT_KEEP_unset js_eval)

lemma next_rowid_fresh: "next_rowid rs \<notin> rowid ` set rs"
proof
  assume "next_rowid rs \<in> rowid ` set rs"
  then obtain r where "r \<in> set rs" and "rowid r = next_rowid rs" by auto
  with rowid_lt_next [of r rs] show False by simp
qed

lemma insert_distinct:
  "distinct (map rowid rs) \<Longrightarrow> distinct (map rowid (insertStmt u g c rl ct t rs))"
  using next_rowid_fresh [of rs] by (simp add: insertStmt_def)

lemma trim_other_key:
  assumes d: "distinct (map rowid rs)" and k: "\<And>r. where_key u' g' c' r \<Longrightarrow> \<not> where_key u g c r"
  shows "filter (where_key u' g' c') (trimStmt u g c keep rs) = filter (where_key u' g' c') rs"
proof -
  let ?victims = "map rowid (drop keep (order_desc (filter (where_key u g c) rs)))"
  have sub: "set (drop keep (order_desc (filter (where_key u g c) rs)))
             \<subseteq> set (filter (where_key u g c) rs)"
    using set_drop_subset [of keep "order_desc (filter (where_key u g c) rs)"]
    by (simp add: order_desc_def)
  have "rowid r \<notin> set ?victims" if r: "r \<in> set rs" "where_key u' g' c' r" for r
  proof
    assume "rowid r \<in> set ?victims"
    then obtain v where v: "v \<in> set (drop keep (order_desc (filter (where_key u g c) rs)))"
      and e: "rowid v = rowid r" by auto
    from v sub have vk: "v \<in> set rs" "where_key u g c v" by auto
    from d have "inj_on rowid (set rs)" by (simp add: distinct_map)
    with vk(1) r(1) e have "v = r" by (simp add: inj_on_def)
    with vk(2) k [OF r(2)] show False by simp
  qed
  then have "filter (\<lambda>r. rowid r \<notin> set ?victims \<and> where_key u' g' c' r) rs
             = filter (where_key u' g' c') rs"
    by (intro filter_cong refl) blast
  then have "filter (where_key u' g' c') (filter (\<lambda>r. rowid r \<notin> set ?victims) rs)
             = filter (where_key u' g' c') rs"
    by simp
  then show ?thesis by (simp add: trimStmt_def Let_def)
qed


section \<open>Lemmas about number parsing\<close>

lemma digit_val_digit_char: "digit_val (digit_char d) = Some (d mod 10)"
proof -
  define k where "k = d mod 10"
  have "k < 10" by (simp add: k_def)
  then have "k = 0 \<or> k = 1 \<or> k = 2 \<or> k = 3 \<or> k = 4 \<or> k = 5 \<or> k = 6 \<or> k = 7 \<or> k = 8 \<or> k = 9"
    by arith
  then have "digit_val (''0123456789'' ! k) = Some k"
    by (elim disjE) (simp_all add: digit_val_def)
  then show ?thesis by (simp add: digit_char_def k_def)
qed

lemma is_digit_digit_char: "is_digit (digit_char d)"
  by (simp add: is_digit_def digit_val_digit_char)

lemma is_digit_not_space: "is_digit c \<Longrightarrow> \<not> is_space c"
  by (auto simp: is_digit_def is_space_def digit_val_def)

lemma is_digit_not_sign: "is_digit c \<Longrightarrow> c \<noteq> CHR ''-'' \<and> c \<noteq> CHR ''+''"
  by (auto simp: is_digit_def digit_val_def)

lemma digits_nonempty: "digits n \<noteq> []"
  by (subst digits.simps) simp

lemma digits_all_digit: "\<forall>c\<in>set (digits n). is_digit c"
proof (induction n rule: digits.induct)
  case (1 n)
  then show ?case
    by (subst digits.simps) (simp add: is_digit_digit_char)
qed

lemma digits_value_append:
  "\<forall>c\<in>set xs. is_digit c \<Longrightarrow> digits_value acc (xs @ ys) = digits_value (digits_value acc xs) ys"
  by (induction xs arbitrary: acc) (auto simp: is_digit_def)

lemma digits_value_digits: "digits_value 0 (digits n) = n"
proof (induction n rule: digits.induct)
  case (1 n)
  show ?case
  proof (cases "n < 10")
    case True
    then show ?thesis by (subst digits.simps) (simp add: digit_val_digit_char)
  next
    case False
    with 1 have ih: "digits_value 0 (digits (n div 10)) = n div 10" by simp
    have "digits_value 0 (digits n)
          = digits_value 0 (digits (n div 10) @ [digit_char (n mod 10)])"
      using False by (subst digits.simps) simp
    also have "\<dots> = digits_value (n div 10) [digit_char (n mod 10)]"
      by (simp add: digits_value_append digits_all_digit ih)
    also have "\<dots> = n" by (simp add: digit_val_digit_char)
    finally show ?thesis .
  qed
qed

lemma digits_times_10: "0 < n \<Longrightarrow> digits (n * 10) = digits n @ ''0''"
  by (subst digits.simps) (simp add: digit_char_def)

lemma digits_times_power: "0 < s \<Longrightarrow> digits (s * 10 ^ j) = digits s @ replicate j CHR ''0''"
proof (induction j)
  case 0
  then show ?case by simp
next
  case (Suc j)
  have "s * 10 ^ Suc j = (s * 10 ^ j) * 10" by simp
  then have "digits (s * 10 ^ Suc j) = digits ((s * 10 ^ j) * 10)" by (rule arg_cong)
  also have "\<dots> = digits (s * 10 ^ j) @ ''0''" using Suc.prems by (intro digits_times_10) simp
  also have "\<dots> = digits s @ replicate (Suc j) CHR ''0''"
    using Suc by (simp add: replicate_append_same)
  finally show ?case .
qed

lemma length_digits_le: "n < 10 ^ k \<Longrightarrow> 0 < k \<Longrightarrow> length (digits n) \<le> k"
proof (induction n arbitrary: k rule: digits.induct)
  case (1 n)
  show ?case
  proof (cases "n < 10")
    case True
    then show ?thesis using "1.prems" by (subst digits.simps) simp
  next
    case False
    with "1.prems" obtain k' where k: "k = Suc k'" by (cases k) auto
    with False "1.prems" have k': "0 < k'" by (cases k') auto
    have "n div 10 < 10 ^ k'" using "1.prems" k by (simp add: less_mult_imp_div_less mult.commute)
    with 1 False k' have "length (digits (n div 10)) \<le> k'" by simp
    then show ?thesis using False k by (subst digits.simps) simp
  qed
qed

lemma strip_zeros_spec:
  "strip_zeros s e = (s', e') \<Longrightarrow> e \<le> e' \<and> s = s' * 10 ^ nat (e' - e) \<and> (0 < s \<longrightarrow> 0 < s')"
proof (induction s e rule: strip_zeros.induct)
  case (1 s e)
  show ?case
  proof (cases "s \<noteq> 0 \<and> s mod 10 = 0")
    case True
    then have "strip_zeros (s div 10) (e + 1) = (s', e')"
      using "1.prems" by (subst (asm) strip_zeros.simps) simp
    with 1 True have ih: "e + 1 \<le> e'" "s div 10 = s' * 10 ^ nat (e' - (e + 1))" "0 < s div 10 \<longrightarrow> 0 < s'"
      by auto
    have "nat (e' - e) = Suc (nat (e' - (e + 1)))" using ih(1) by simp
    moreover have "s = (s div 10) * 10" using True by auto
    ultimately have "s = s' * 10 ^ nat (e' - e)" using ih(2) by simp
    moreover have "0 < s div 10" using True by auto
    ultimately show ?thesis using ih by simp
  next
    case False
    then have "strip_zeros s e = (s, e)" by (subst strip_zeros.simps) auto
    with "1.prems" show ?thesis by simp
  qed
qed


lemma number_to_string_nat:
  assumes "0 < n" and "n < 10 ^ 21"
  shows "number_to_string (number_of_nat n) = digits n"
proof -
  obtain s' e' where st: "strip_zeros n 0 = (s', e')" by (cases "strip_zeros n 0")
  from strip_zeros_spec [OF st] assms(1)
  have e': "0 \<le> e'" and n: "n = s' * 10 ^ nat e'" and s': "0 < s'" by simp_all
  have dn: "digits n = digits s' @ replicate (nat e') CHR ''0''"
    by (subst n) (rule digits_times_power [OF s'])
  have "length (digits n) \<le> 21" using assms(2) by (rule length_digits_le) simp
  then have len: "int (length (digits s')) + e' \<le> 21" using e' by (simp add: dn)
  have "finite_to_string n 0 = digits s' @ replicate (nat e') CHR ''0''"
    using e' len by (simp add: finite_to_string_def st Let_def)
  then show ?thesis using assms(1) by (simp add: number_of_nat_def dn)
qed

lemma not_double_overflow: "n < 10 ^ 21 \<Longrightarrow> \<not> double_overflow n"
  by (simp add: double_overflow_def)

lemma parseInt_digits:
  assumes "to_string v = digits n" and "n < 10 ^ 21"
  shows "parseInt v = Finite False n 0"
proof -
  obtain c cs where d: "digits n = c # cs" using digits_nonempty [of n] by (cases "digits n") auto
  have alld: "\<forall>x\<in>set (digits n). is_digit x" by (rule digits_all_digit)
  then have c: "is_digit c" by (simp add: d)
  have sp: "dropWhile is_space (digits n) = digits n"
    using is_digit_not_space [OF c] by (simp add: d)
  have tw: "takeWhile is_digit (digits n) = digits n"
    using alld by (simp add: takeWhile_eq_all_conv)
  have sg: "hd (digits n) \<noteq> CHR ''-'' \<and> hd (digits n) \<noteq> CHR ''+''"
    using is_digit_not_sign [OF c] by (simp add: d)
  show ?thesis
    unfolding parseInt_def assms(1) sp Let_def
    using sg by (simp add: tw digits_nonempty digits_value_digits not_double_overflow [OF assms(2)])
qed

lemma normalizeCount_nat:
  assumes "0 < n" and "n < 10 ^ 21"
  shows "normalizeCount (JNum (number_of_nat n)) fb = n"
proof -
  have "to_string (JNum (number_of_nat n)) = digits n"
    using assms by (simp add: number_to_string_nat)
  then have "parseInt (JNum (number_of_nat n)) = Finite False n 0"
    using assms(2) by (rule parseInt_digits)
  then show ?thesis using assms(1)
    by (simp add: normalizeCount_def number_of_nat_def scaled_def)
qed

lemma parseInt_cases:
  "parseInt v = NaN \<or> (\<exists>b. parseInt v = Infinity b) \<or> (\<exists>b k. parseInt v = Finite b k 0)"
  by (simp add: parseInt_def Let_def)

lemma parseInt_minus:
  assumes "to_string v = CHR ''-'' # rest"
  shows "parseInt v = NaN \<or> parseInt v = Infinity True \<or> (\<exists>k. parseInt v = Finite True k 0)"
  unfolding parseInt_def assms by (simp add: is_space_def Let_def)

lemma normalizeCount_minus:
  assumes "to_string v = CHR ''-'' # rest" and "nullish v (JStr []) = v"
  shows "normalizeCount v fb = fb"
  using parseInt_minus [OF assms(1)]
  by (auto simp: normalizeCount_def assms(2) number_of_nat_def scaled_def)

lemma DEFAULT_KEEP_pos: "0 < DEFAULT_KEEP hl"
  using parseInt_cases [of "case hl of None \<Rightarrow> JStr [] | Some s \<Rightarrow> JStr s"]
  by (auto simp: DEFAULT_KEEP_def number_of_nat_def scaled_def Let_def split: if_splits)

lemma normalizedCount_default:
  assumes "absent_or_not_positive v" and "DEFAULT_KEEP hl < 10 ^ 21"
  shows "normalizedCount hl v = DEFAULT_KEEP hl"
proof (cases v)
  case JUndefined
  then show ?thesis
    using assms(2) DEFAULT_KEEP_pos [of hl] by (simp add: normalizedCount_def normalizeCount_nat)
next
  case JNull
  then show ?thesis by (simp add: normalizedCount_def normalizeCount_def parseInt_def)
next
  case (JStr s)
  with assms(1) show ?thesis by simp
next
  case (JNum x)
  show ?thesis
  proof (cases x)
    case NaN
    with JNum show ?thesis
      by (simp add: normalizedCount_def normalizeCount_def parseInt_def is_space_def
          is_digit_def digit_val_def)
  next
    case (Infinity neg)
    with JNum show ?thesis
      by (simp add: normalizedCount_def normalizeCount_def parseInt_def is_space_def
          is_digit_def digit_val_def)
  next
    case (Finite neg s e)
    show ?thesis
    proof (cases "s = 0")
      case True
      with JNum Finite show ?thesis
        by (simp add: normalizedCount_def js_eval)
    next
      case False
      with assms(1) JNum Finite have neg by simp
      with False have "to_string v = CHR ''-'' # finite_to_string s e"
        by (simp add: JNum Finite)
      moreover have "nullish v (JStr []) = v" by (simp add: JNum)
      ultimately have "normalizeCount v (DEFAULT_KEEP hl) = DEFAULT_KEEP hl"
        by (rule normalizeCount_minus)
      then show ?thesis by (simp add: normalizedCount_def JNum)
    qed
  qed
qed

section \<open>Lemmas about the classifier\<close>

lemma startsWith_iff: "startsWith s p \<longleftrightarrow> (\<exists>rest. s = p @ rest)"
proof
  assume "startsWith s p"
  then have "s = p @ drop (length p) s"
    unfolding startsWith_def by (metis append_take_drop_id)
  then show "\<exists>rest. s = p @ rest" ..
next
  assume "\<exists>rest. s = p @ rest"
  then show "startsWith s p" by (auto simp: startsWith_def)
qed

lemma not_ext_char_dot: "\<not> ext_char CHR ''.''"
  by (simp add: ext_char_def)

lemma takeWhile_until: "\<forall>c\<in>set xs. P c \<Longrightarrow> \<not> P d \<Longrightarrow> takeWhile P (xs @ d # ys) = xs"
  by simp

lemma dropWhile_until: "\<forall>c\<in>set xs. P c \<Longrightarrow> \<not> P d \<Longrightarrow> dropWhile P (xs @ d # ys) = d # ys"
  by simp

lemma regex_ext_iff:
  "regex_ext nm = Some x \<longleftrightarrow>
     (\<exists>stem sfx. nm = stem @ ''.'' @ sfx \<and> sfx \<noteq> [] \<and> (\<forall>c\<in>set sfx. ext_char c)
        \<and> x = ''.'' @ sfx)"
proof
  assume r: "regex_ext nm = Some x"
  let ?tail = "takeWhile ext_char (rev nm)"
  let ?rest = "dropWhile ext_char (rev nm)"
  from r have t: "?tail \<noteq> []" and rs: "?rest \<noteq> []" and h: "hd ?rest = CHR ''.''"
    and x: "x = CHR ''.'' # rev ?tail"
    by (auto simp: regex_ext_def Let_def split: if_splits)
  from rs h obtain rest' where rest': "?rest = CHR ''.'' # rest'" by (cases ?rest) auto
  have "rev nm = ?tail @ ?rest" by simp
  then have "nm = rev ?rest @ rev ?tail" by (metis rev_append rev_rev_ident)
  then have "nm = rev rest' @ ''.'' @ rev ?tail" by (simp add: rest')
  moreover have "\<forall>c\<in>set (rev ?tail). ext_char c" by (auto dest: set_takeWhileD)
  ultimately show "\<exists>stem sfx. nm = stem @ ''.'' @ sfx \<and> sfx \<noteq> []
      \<and> (\<forall>c\<in>set sfx. ext_char c) \<and> x = ''.'' @ sfx"
    using t x by (intro exI [of _ "rev rest'"] exI [of _ "rev ?tail"]) simp
next
  assume "\<exists>stem sfx. nm = stem @ ''.'' @ sfx \<and> sfx \<noteq> [] \<and> (\<forall>c\<in>set sfx. ext_char c)
        \<and> x = ''.'' @ sfx"
  then obtain stem sfx where n: "nm = stem @ ''.'' @ sfx" and s: "sfx \<noteq> []"
    and a: "\<forall>c\<in>set sfx. ext_char c" and x: "x = ''.'' @ sfx" by blast
  have rv: "rev nm = rev sfx @ CHR ''.'' # rev stem" by (simp add: n)
  have all: "\<forall>c\<in>set (rev sfx). ext_char c" using a by simp
  have tw: "takeWhile ext_char (rev nm) = rev sfx"
    unfolding rv using all not_ext_char_dot by (rule takeWhile_until)
  have dw: "dropWhile ext_char (rev nm) = CHR ''.'' # rev stem"
    unfolding rv using all not_ext_char_dot by (rule dropWhile_until)
  show "regex_ext nm = Some x"
    by (simp add: regex_ext_def tw dw s x)
qed

lemma lower_char_dot: "lower_char CHR ''.'' = CHR ''.''"
  by (simp add: lower_char_def)

lemma classify_ext_iff:
  "(case regex_ext (or_else (att_name a) []) of None \<Rightarrow> [] | Some e \<Rightarrow> toLowerCase e) = e'
     \<and> e' \<noteq> []
   \<longleftrightarrow> extension_is a e'"
proof
  assume l: "(case regex_ext (or_else (att_name a) []) of None \<Rightarrow> [] | Some e \<Rightarrow> toLowerCase e) = e'
     \<and> e' \<noteq> []"
  then obtain x where x: "regex_ext (or_else (att_name a) []) = Some x" and e': "e' = toLowerCase x"
    by (auto split: option.splits)
  from x obtain stem sfx where n: "or_else (att_name a) [] = stem @ ''.'' @ sfx"
    and s: "sfx \<noteq> []" and c: "\<forall>c\<in>set sfx. ext_char c" and xs: "x = ''.'' @ sfx"
    unfolding regex_ext_iff by blast
  from n have "att_name a = Some (stem @ ''.'' @ sfx)"
    by (auto simp: or_else_def split: option.splits if_splits)
  then show "extension_is a e'"
    unfolding extension_is_def using s c e' xs
    by (intro exI [of _ stem] exI [of _ sfx]) (simp add: toLowerCase_def lower_char_dot)
next
  assume "extension_is a e'"
  then obtain stem sfx where n: "att_name a = Some (stem @ ''.'' @ sfx)" and s: "sfx \<noteq> []"
    and c: "\<forall>c\<in>set sfx. ext_char c" and e': "e' = ''.'' @ toLowerCase sfx"
    unfolding extension_is_def by blast
  have "or_else (att_name a) [] = stem @ ''.'' @ sfx" by (simp add: n or_else_def)
  moreover have "regex_ext (stem @ ''.'' @ sfx) = Some (''.'' @ sfx)"
    unfolding regex_ext_iff using s c by blast
  ultimately show "(case regex_ext (or_else (att_name a) []) of None \<Rightarrow> [] | Some e \<Rightarrow> toLowerCase e) = e'
     \<and> e' \<noteq> []"
    by (simp add: e' toLowerCase_def lower_char_dot)
qed

lemma IMAGE_EXTS_nonempty: "e \<in> set IMAGE_EXTS \<Longrightarrow> e \<noteq> []"
  by (auto simp: IMAGE_EXTS_def)

lemma hasExt_iff:
  "(case regex_ext (or_else (att_name a) []) of None \<Rightarrow> [] | Some e \<Rightarrow> toLowerCase e) \<in> set IMAGE_EXTS
   \<longleftrightarrow> has_image_extension a"
  unfolding has_image_extension_def
  using classify_ext_iff [of a] IMAGE_EXTS_nonempty by metis

lemma hasMime_iff:
  "startsWith (case contentType a of JStr s \<Rightarrow> s | _ \<Rightarrow> []) ''image/'' \<longleftrightarrow> declares_image_mime a"
  unfolding declares_image_mime_def startsWith_iff
  by (cases "contentType a") auto

lemma ext_char_not_dot: "ext_char c \<Longrightarrow> c \<noteq> CHR ''.''"
  by (auto simp: ext_char_def)

lemma last_segment_ext:
  assumes "regex_ext nm = Some x"
  shows "x = ''.'' @ last_segment nm"
proof -
  from assms obtain stem sfx where n: "nm = stem @ ''.'' @ sfx"
    and c: "\<forall>c\<in>set sfx. ext_char c" and x: "x = ''.'' @ sfx"
    unfolding regex_ext_iff by blast
  have rv: "rev nm = rev sfx @ CHR ''.'' # rev stem" by (simp add: n)
  have all: "\<forall>c\<in>set (rev sfx). c \<noteq> CHR ''.''" using c by (auto dest: ext_char_not_dot)
  have "takeWhile (\<lambda>c. c \<noteq> CHR ''.'') (rev nm) = rev sfx"
    unfolding rv using all by (rule takeWhile_until) simp
  then show ?thesis by (simp add: last_segment_def x)
qed

lemma extToMime_image_ext:
  assumes "regex_ext nm = Some x" and "toLowerCase x \<in> set IMAGE_EXTS"
  shows "map_of MIME_BY_EXTENSION (toLowerCase x) = Some (extToMime nm)"
proof -
  have x: "toLowerCase x = ''.'' @ toLowerCase (last_segment nm)"
    using last_segment_ext [OF assms(1)] by (simp add: toLowerCase_def lower_char_dot)
  from assms(2) have "toLowerCase (last_segment nm) \<in>
      {''png'', ''jpg'', ''jpeg'', ''webp'', ''gif'', ''bmp'', ''tiff'', ''tif'', ''heic''}"
    unfolding x IMAGE_EXTS_def by simp
  then show ?thesis
    unfolding x extToMime_def Let_def or_str_def
    by (elim insertE emptyE) (simp_all add: MIME_BY_EXTENSION_def)
qed

lemma table_Fuku_image:
  "startsWith (table_or MIME_BY_EXTENSION_Fuku e []) ''image/''
   \<longleftrightarrow> e \<in> set IMAGE_EXTS_Fuku \<or> e \<in> set [''.bmp'', ''.tiff'', ''.svg'']"
  by (simp add: table_or_def MIME_BY_EXTENSION_Fuku_def IMAGE_EXTS_Fuku_def or_str_def
      startsWith_def)

lemma providedMime_Fuku_declared:
  "\<forall>x. contentType a \<noteq> JNum x \<Longrightarrow> providedMime_Fuku (contentType a) = Some (declared_mime a)"
  by (cases "contentType a") (simp_all add: declared_mime_def)

lemma declares_image_mime_iff: "declares_image_mime a \<longleftrightarrow> startsWith (declared_mime a) ''image/''"
  unfolding declared_mime_def by (rule hasMime_iff [symmetric])

section \<open>Lemmas about the attachment modules\<close>

lemma try_catch_Normal: "fst (try_catch r h) = Normal"
  by (cases r rule: prod_cases3) (auto simp: try_catch_def split: completion.splits prod.splits)

lemma image_step_Normal: "fst (image_step E apiKey limit img w) = Normal"
  by (simp add: image_step_def try_catch_Normal)

lemma file_step_Normal: "fst (file_step E apiKey f w) = Normal"
  by (simp add: file_step_def try_catch_Normal)

lemma image_step_Fuku_Normal: "fst (image_step_Fuku E apiKey img w) = Normal"
  by (simp add: image_step_Fuku_def try_catch_Normal)

lemma file_step_Fuku_Normal: "fst (file_step_Fuku E apiKey f w) = Normal"
  by (simp add: file_step_Fuku_def try_catch_Normal)

lemma for_each_prefix:
  "for_each step xs parts w =
     (case for_each step xs [] w of (c, bs, w') \<Rightarrow> (c, parts @ bs, w'))"
proof (induction xs arbitrary: parts w)
  case Nil
  show ?case by simp
next
  case (Cons x xs)
  obtain c ps w1 where s: "step x w = (c, ps, w1)" by (cases "step x w" rule: prod_cases3)
  show ?case
  proof (cases c)
    case Normal
    obtain c' bs w' where r: "for_each step xs [] w1 = (c', bs, w')"
      by (cases "for_each step xs [] w1" rule: prod_cases3)
    have a: "for_each step xs (parts @ ps) w1 = (c', (parts @ ps) @ bs, w')"
      using Cons.IH [of "parts @ ps" w1] by (simp add: r)
    have b: "for_each step xs ps w1 = (c', ps @ bs, w')"
      using Cons.IH [of ps w1] by (simp add: r)
    show ?thesis by (simp add: s Normal a b)
  next
    case (Thrown e)
    then show ?thesis by (simp add: s)
  qed
qed

lemma for_each_total:
  assumes "\<And>x w. fst (step x w) = Normal"
  shows "\<exists>bs w'. for_each step xs parts w = (Normal, parts @ bs, w')"
proof (induction xs arbitrary: parts w)
  case Nil
  show ?case by simp
next
  case (Cons x xs)
  obtain c ps w1 where s: "step x w = (c, ps, w1)" by (cases "step x w" rule: prod_cases3)
  with assms [of x w] have c: "c = Normal" by simp
  from Cons.IH [of "parts @ ps" w1] obtain bs w'
    where "for_each step xs (parts @ ps) w1 = (Normal, (parts @ ps) @ bs, w')" by blast
  then have "for_each step (x # xs) parts w = (Normal, parts @ (ps @ bs), w')"
    by (simp add: s c)
  then show ?case by blast
qed

lemma for_each_append:
  "for_each step (xs @ ys) parts w =
     (case for_each step xs parts w of
        (Normal, ps, w1) \<Rightarrow> for_each step ys ps w1
      | (Thrown e, ps, w1) \<Rightarrow> (Thrown e, ps, w1))"
proof (induction xs arbitrary: parts w)
  case Nil
  show ?case by simp
next
  case (Cons x xs)
  obtain c ps w1 where s: "step x w = (c, ps, w1)" by (cases "step x w" rule: prod_cases3)
  show ?case by (cases c) (simp_all add: s Cons.IH)
qed

lemma loops_total:
  assumes "\<And>x w. fst (istep x w) = Normal" and "\<And>x w. fst (fstep x w) = Normal"
  shows "\<exists>bs w'. loops istep fstep images files parts w = (Normal, parts @ bs, w')"
proof -
  from for_each_total [of istep images parts w, OF assms(1)] obtain bs1 w1
    where a: "for_each istep images parts w = (Normal, parts @ bs1, w1)" by blast
  from for_each_total [of fstep files "parts @ bs1" w1, OF assms(2)] obtain bs2 w2
    where b: "for_each fstep files (parts @ bs1) w1 = (Normal, (parts @ bs1) @ bs2, w2)" by blast
  have "loops istep fstep images files parts w = (Normal, parts @ (bs1 @ bs2), w2)"
    by (simp add: loops_def a b)
  then show ?thesis by blast
qed

lemma loops_prefix:
  assumes "\<And>x w. fst (istep x w) = Normal" and "\<And>x w. fst (fstep x w) = Normal"
    and "loops istep fstep images files [] w = (Normal, rest, w')"
  shows "loops istep fstep images files parts w = (Normal, parts @ rest, w')"
proof -
  from for_each_total [of istep images "[]" w, OF assms(1)] obtain bs1 w1
    where a: "for_each istep images [] w = (Normal, bs1, w1)" by auto
  from for_each_total [of fstep files "[]" w1, OF assms(2)] obtain bs2 w2
    where b: "for_each fstep files [] w1 = (Normal, bs2, w2)" by auto
  have a': "for_each istep images parts w = (Normal, parts @ bs1, w1)"
    by (subst for_each_prefix) (simp add: a)
  have b': "for_each fstep files ps w1 = (Normal, ps @ bs2, w2)" for ps
    by (subst for_each_prefix) (simp add: b)
  from assms(3) have "rest = bs1 @ bs2 \<and> w' = w2"
    by (simp add: loops_def a b')
  then show ?thesis by (simp add: loops_def a' b')
qed

lemma loops_image_at:
  assumes ti: "\<And>x w. fst (istep x w) = Normal" and tf: "\<And>x w. fst (fstep x w) = Normal"
    and pre: "for_each istep pre parts0 w0 = (Normal, ps1, w1)"
    and st: "istep x w1 = (Normal, block, w2)"
  shows "\<exists>rest w'. loops istep fstep post files [] w2 = (Normal, rest, w')
           \<and> loops istep fstep (pre @ x # post) files parts0 w0 = (Normal, ps1 @ block @ rest, w')"
proof -
  from loops_total [of istep fstep post files "[]" w2, OF ti tf] obtain rest w'
    where r: "loops istep fstep post files [] w2 = (Normal, rest, w')" by auto
  have "for_each istep (pre @ x # post) parts0 w0 = for_each istep post (ps1 @ block) w2"
    by (simp add: for_each_append pre st)
  then have "loops istep fstep (pre @ x # post) files parts0 w0
             = loops istep fstep post files (ps1 @ block) w2"
    by (simp add: loops_def)
  also have "\<dots> = (Normal, (ps1 @ block) @ rest, w')"
    using ti tf r by (rule loops_prefix)
  finally show ?thesis using r by simp
qed

lemma loops_file_at:
  assumes tf: "\<And>x w. fst (fstep x w) = Normal"
    and im: "for_each istep images parts0 w0 = (Normal, ps0, wm)"
    and pre: "for_each fstep pre ps0 wm = (Normal, ps1, w1)"
    and st: "fstep x w1 = (Normal, block, w2)"
  shows "\<exists>rest w'. for_each fstep post [] w2 = (Normal, rest, w')
           \<and> loops istep fstep images (pre @ x # post) parts0 w0 = (Normal, ps1 @ block @ rest, w')"
proof -
  from for_each_total [of fstep post "[]" w2, OF tf] obtain rest w'
    where r: "for_each fstep post [] w2 = (Normal, rest, w')" by auto
  have "for_each fstep post (ps1 @ block) w2 = (Normal, (ps1 @ block) @ rest, w')"
    by (subst for_each_prefix) (simp add: r)
  then have "loops istep fstep images (pre @ x # post) parts0 w0 = (Normal, ps1 @ block @ rest, w')"
    by (simp add: loops_def im for_each_append pre st)
  with r show ?thesis by blast
qed

lemma finish_Normal: "ps \<noteq> [] \<Longrightarrow> finish (Normal, ps, w) = (Inr ps, w)"
  by (simp add: finish_def)

lemma build_total:
  "\<exists>rest w'. buildGeminiParts E text images files apiKey mx w
               = (Inr (Text (safe_text text) # rest), w')"
proof -
  from loops_total [of "image_step E apiKey (inline_limit mx)" "file_step E apiKey" images files
      "[Text (safe_text text)]" "announce apiKey w", OF image_step_Normal file_step_Normal]
  obtain bs w' where "loops (image_step E apiKey (inline_limit mx)) (file_step E apiKey) images files
      [Text (safe_text text)] (announce apiKey w) = (Normal, [Text (safe_text text)] @ bs, w')"
    by blast
  then have "buildGeminiParts E text images files apiKey mx w = (Inr (Text (safe_text text) # bs), w')"
    by (simp add: buildGeminiParts_def finish_def)
  then show ?thesis by blast
qed

lemma build_Fuku_total:
  "\<exists>bs w'. buildGeminiParts_Fuku E text images files apiKey w
             = (Inr (if first_parts_Fuku text @ bs = [] then [Text []]
                     else first_parts_Fuku text @ bs), w')"
proof -
  from loops_total [of "image_step_Fuku E apiKey" "file_step_Fuku E apiKey" images files
      "first_parts_Fuku text" w, OF image_step_Fuku_Normal file_step_Fuku_Normal]
  obtain bs w' where "loops (image_step_Fuku E apiKey) (file_step_Fuku E apiKey) images files
      (first_parts_Fuku text) w = (Normal, first_parts_Fuku text @ bs, w')"
    by blast
  then have "buildGeminiParts_Fuku E text images files apiKey w
             = (Inr (if first_parts_Fuku text @ bs = [] then [Text []]
                     else first_parts_Fuku text @ bs), w')"
    by (simp add: buildGeminiParts_Fuku_def finish_def)
  then show ?thesis by blast
qed

lemma fetchAsBuffer_unfold:
  "fetchAsBuffer E u w =
     (case http_get E (tick w) u of
        Inr b \<Rightarrow> (Inr b, w\<lparr>tick := tick w + 1, trace := trace w @ [HttpGet u]\<rparr>)
      | Inl e1 \<Rightarrow>
          (case http_get E (tick w + 1) u of
             Inr b \<Rightarrow> (Inr b, w\<lparr>tick := tick w + 2,
                              trace := trace w @ [HttpGet u, Wait 500, HttpGet u]\<rparr>)
           | Inl e2 \<Rightarrow>
               (case http_get E (tick w + 2) u of
                  Inr b \<Rightarrow> (Inr b, w\<lparr>tick := tick w + 3,
                                   trace := trace w @ [HttpGet u, Wait 500, HttpGet u,
                                                       Wait 1000, HttpGet u]\<rparr>)
                | Inl e3 \<Rightarrow> (Inl (Some e3), w\<lparr>tick := tick w + 3,
                                   trace := trace w @ [HttpGet u, Wait 500, HttpGet u,
                                                       Wait 1000, HttpGet u]\<rparr>))))"
proof -
  have s1: "fetch_from E u 4 le w' = (Inl le, w')" for le w'
    by (subst fetch_from.simps) (simp add: RETRY_ATTEMPTS_def)
  have s3: "fetch_from E u 3 le w' =
      (case http_get E (tick w') u of
         Inr d \<Rightarrow> (Inr d, request (HttpGet u) w')
       | Inl e \<Rightarrow> (Inl (Some e), request (HttpGet u) w'))" for le w'
    by (subst fetch_from.simps) (simp add: RETRY_ATTEMPTS_def s1 split: sum.split)
  have s2: "fetch_from E u 2 le w' =
      (case http_get E (tick w') u of
         Inr d \<Rightarrow> (Inr d, request (HttpGet u) w')
       | Inl e \<Rightarrow> fetch_from E u 3 (Some e) (wait 1000 (request (HttpGet u) w')))" for le w'
    by (subst fetch_from.simps) (simp add: RETRY_ATTEMPTS_def RETRY_DELAY_MS_def split: sum.split)
  have s0: "fetch_from E u 1 le w' =
      (case http_get E (tick w') u of
         Inr d \<Rightarrow> (Inr d, request (HttpGet u) w')
       | Inl e \<Rightarrow> fetch_from E u 2 (Some e) (wait 500 (request (HttpGet u) w')))" for le w'
    by (subst fetch_from.simps)
      (simp add: RETRY_ATTEMPTS_def RETRY_DELAY_MS_def split: sum.split flip: numeral_2_eq_2)
  show ?thesis
    unfolding fetchAsBuffer_def s0 s2 s3
    by (simp add: request_def wait_def emit_def split: sum.split)
qed

lemmas build_eval = buildGeminiParts_def buildGeminiParts_Fuku_def finish_def loops_def
  image_step_def image_step_Fuku_def file_step_def file_step_Fuku_def try_catch_def
  image_try_def image_try_Fuku_def file_try_with_def image_catch_def file_catch_def
  image_mime_def maybeInlineImage_def maybeInlineImage_Fuku_def actualSize_def actualSize_Fuku_def
  normalizeMimeType_def normalizeMimeType_Fuku_def isTextLikeAttachment_def
  inline_limit_def announce_def first_parts_Fuku_def safe_text_def trim_nonempty_def
  too_large_notice_def image_failed_notice_def file_failed_notice_def err_detail_def
  fetchAsBuffer_unfold toBase64_def startsWith_def truthy_def or_else_def or_str_def
  or_undefined_def warn_def emit_def request_def number_of_nat_def scaled_def
  INLINE_LIMIT_IMAGE_BYTES_def INLINE_LIMIT_TEXT_BYTES_def is_space_def

lemmas sample_eval = sample_env_def new_world_def image_a_def image_b_def image_big_def

lemma image_step_thrown:
  assumes "truthy (url img)" and "image_try E apiKey limit img w1 = (Thrown error, pushed, w2)"
  shows "image_step E apiKey limit img w1
         = (Normal, pushed @ [Text (image_failed_notice img)],
            warn ''[ATTACHMENTS] Image handling error:'' (err_detail error) w2)"
  using assms by (simp add: image_step_def try_catch_def image_catch_def)

lemma file_step_thrown:
  assumes "truthy (url f)"
    and "file_try_with normalizeMimeType uploadToGeminiFileAPI E apiKey f w1 = (Thrown error, pushed, w2)"
  shows "file_step E apiKey f w1
         = (Normal, pushed @ [Text (file_failed_notice f)],
            warn ''[ATTACHMENTS] File handling error:'' (err_detail error) w2)"
  using assms by (simp add: file_step_def try_catch_def file_catch_def)

lemma image_step_Fuku_thrown:
  assumes "image_try_Fuku E apiKey img w1 = (Thrown error, pushed, w2)"
  shows "image_step_Fuku E apiKey img w1
         = (Normal, pushed @ [Text (image_failed_notice img)],
            warn ''[ATTACHMENTS] Image handling error:'' (err_detail error) w2)"
  using assms by (simp add: image_step_Fuku_def try_catch_def image_catch_def)

lemma file_step_Fuku_thrown:
  assumes "file_try_with normalizeMimeType_Fuku uploadToGeminiFileAPI_Fuku E apiKey f w1
           = (Thrown error, pushed, w2)"
  shows "file_step_Fuku E apiKey f w1
         = (Normal, pushed @ [Text (file_failed_notice f)],
            warn ''[ATTACHMENTS] File handling error:'' (err_detail error) w2)"
  using assms by (simp add: file_step_Fuku_def try_catch_def file_catch_def)

lemma finish_append: "finish (Normal, ps1 @ pushed @ Text t # rest, w) = (Inr (ps1 @ pushed @ Text t # rest), w)"
  by (simp add: finish_def)

lemma upload_body_world:
  "snd (upload_body pick E p mt nm fn w)
   = request (UploadFile p (or_str mt ''application/octet-stream'') (or_else nm fn)) w"
  by (simp add: upload_body_def uploadFile_def Let_def split: sum.splits upload_response.splits option.splits)

lemma cleanup_effect:
  assumes "p \<in> set (paths w)"
  shows "trace (cleanup E p d w)
         = trace w @ [Unlink p]
           @ cleanup_log ''[ATTACHMENTS] Failed to remove temp file:'' (fs_fault E (tick w))
           @ [Rm d]
           @ cleanup_log ''[ATTACHMENTS] Failed to remove temp directory:'' (fs_fault E (tick w + 1))"
    and "fs_fault E (tick w) = None \<Longrightarrow> p \<notin> set (paths (cleanup E p d w))"
    and "fs_fault E (tick w + 1) = None \<Longrightarrow> \<forall>q\<in>set (paths (cleanup E p d w)). \<not> inside d q"
  using assms
  by (auto simp: cleanup_def unlink_def rm_def request_def warn_def emit_def cleanup_log_def Let_def
      split: option.splits)

lemma upload_with_unfold:
  assumes "truthy apiKey" and "fs_fault E (tick w) = None" and "fs_fault E (tick w + 1) = None"
  shows "upload_with pick E buf mt nm apiKey w =
     (let tmpDir = mkdtemp_dir E (tick w);
          w1 = (request Mkdtemp w)\<lparr>paths := tmpDir # paths w\<rparr>;
          fileName = generateTempFilePath E nm w1;
          filePath = path_join tmpDir fileName;
          w2 = (request (WriteFile filePath) w1)\<lparr>paths := filePath # paths w1\<rparr>;
          body = upload_body pick E filePath mt nm fileName w2
      in (fst body, cleanup E filePath tmpDir (snd body)))"
  using assms
  by (simp add: upload_with_def mkdtemp_def writeFile_def Let_def request_def split_beta)

lemma upload_leaks_when_write_fails:
  assumes "truthy apiKey" and "fs_fault E (tick w) = None" and "fs_fault E (tick w + 1) = Some e"
  shows "upload_with pick E buf mt nm apiKey w
         = (Inl e,
            \<lparr>tick = tick w + 2,
             trace = trace w @ [Mkdtemp,
               WriteFile (path_join (mkdtemp_dir E (tick w))
                 (generateTempFilePath E nm
                    ((request Mkdtemp w)\<lparr>paths := mkdtemp_dir E (tick w) # paths w\<rparr>)))],
             paths = mkdtemp_dir E (tick w) # paths w\<rparr>)"
  using assms
  by (simp add: upload_with_def mkdtemp_def writeFile_def Let_def request_def)





section \<open>Claims about the history store\<close>



text \<open>
  Claim C3 says that the keys with \<open>guildId = null\<close> and \<open>guildId = ""\<close> are distinct buckets
  on either backend. On the memory backend \<^verbatim>\<open>getMemoryKey\<close> maps both to the key
  \<open>u||c\<close>: an entry pushed under the null guild is read back under the empty-string
  guild, and clearing the empty-string guild removes it from the null guild.
\<close>

theorem memory_backend_merges_null_and_empty_guild:
  "getLastMessages None ''u'' (Some '''') (Some ''c'') JUndefined
     (pushMessage None 5 ''u'' None (Some ''c'') User ''hi'' JUndefined (empty_store True))
   = [\<lparr>role = User, content = ''hi'', ts = 5\<rparr>]
   \<and> getLastMessages None ''u'' None (Some ''c'') JUndefined
       (clearHistory ''u'' (Some '''') (Some ''c'')
          (pushMessage None 5 ''u'' None (Some ''c'') User ''hi'' JUndefined (empty_store True)))
     = []"
  by (simp add: getLastMessages_def pushMessage_def clearHistory_def empty_store_def
      getMemoryKey_def normalizeId_def Let_def shift_while_drop
      DEFAULT_KEEP_unset js_eval)

text \<open>
  On the SQLite backend the buckets are apart: with distinct rowids, \<^verbatim>\<open>pushMessage\<close> and
  \<^verbatim>\<open>clearHistory\<close> under one key leave the entries of every other key as they are, a
  null guild or channel being another key than any string.
\<close>

theorem sqlite_keeps_buckets_apart:
  assumes "\<not> useMemoryStore s" and "distinct (map rowid (messages s))"
    and "(u', g', c') \<noteq> (u, g, c)"
  shows "bucket (pushMessage hl now u g c rl ct keep s) u' g' c' = bucket s u' g' c'
         \<and> bucket (clearHistory u g c s) u' g' c' = bucket s u' g' c'"
proof -
  have k: "\<not> where_key u g c r" if "where_key u' g' c' r" for r
    using that assms(3) by (auto simp: where_key_iff)
  let ?ins = "insertStmt u g c rl ct now (messages s)"
  have "filter (where_key u' g' c') (trimStmt u g c n ?ins) = filter (where_key u' g' c') ?ins" for n
    using insert_distinct [OF assms(2)] k by (rule trim_other_key)
  moreover have "filter (where_key u' g' c') ?ins = filter (where_key u' g' c') (messages s)"
    using assms(3) by (auto simp: insertStmt_def where_key_iff)
  moreover have "filter (where_key u' g' c') (clearStmt u g c (messages s))
                 = filter (where_key u' g' c') (messages s)"
  proof -
    have "filter (\<lambda>r. \<not> where_key u g c r \<and> where_key u' g' c' r) (messages s)
          = filter (where_key u' g' c') (messages s)"
      by (intro filter_cong refl) (use k in blast)
    then show ?thesis by (simp add: clearStmt_def)
  qed
  ultimately show ?thesis
    using assms(1) by (simp add: bucket_def pushMessage_def clearHistory_def Let_def)
qed

theorem sqlite_keeps_buckets_apart_witness:
  "bucket (pushMessage None 5 ''u'' None (Some ''c'') User ''hi'' JUndefined (empty_store False))
     ''u'' (Some []) (Some ''c'') = []
   \<and> bucket (pushMessage None 5 ''u'' None (Some ''c'') User ''hi'' JUndefined (empty_store False))
     ''u'' None (Some ''c'') = [\<lparr>role = User, content = ''hi'', ts = 5\<rparr>]"
proof -
  have a: "\<not> useMemoryStore (empty_store False)" by (simp add: empty_store_def)
  have d: "distinct (map rowid (messages (empty_store False)))" by (simp add: empty_store_def)
  have n: "(''u'', Some [], Some ''c'') \<noteq> (''u'', None, Some ''c'')" by simp
  have c: "clock_ok (empty_store False) [5]"
    by (simp add: clock_ok_def empty_store_def table_ok_def)
  have e: "bucket (empty_store False) u g c = []" for u g c
    by (simp add: bucket_def empty_store_def)
  from sqlite_keeps_buckets_apart [OF a d n, of None 5 User "''hi''" JUndefined]
    push_bucket [OF c, of None "''u''" None "Some ''c''" User "''hi''" JUndefined]
  show ?thesis by (simp add: e normalizedCount_unset)
qed

text \<open>
  Claim C10, as amended. Where the supplied \<^verbatim>\<open>keep\<close> or \<^verbatim>\<open>limit\<close> is absent, null, NaN,
  infinite or a number not above zero, the store works with the configured default
  (for a default that is a safe integer, at most \<open>2 ^ 53\<close>):
  \<^verbatim>\<open>pushMessage\<close> retains the newest \<^verbatim>\<open>DEFAULT_KEEP\<close> entries of the key and
  \<^verbatim>\<open>getLastMessages\<close> returns the newest \<^verbatim>\<open>DEFAULT_KEEP\<close> at most.
\<close>

theorem default_keep_substituted:
  assumes "absent_or_not_positive v" and "DEFAULT_KEEP hl \<le> 2 ^ 53" and "clock_ok s [now]"
  shows "normalizedCount hl v = DEFAULT_KEEP hl
       \<and> bucket (pushMessage hl now u g c rl ct v s) u g c
         = drop (length (bucket s u g c) + 1 - DEFAULT_KEEP hl)
             (bucket s u g c @ [\<lparr>role = rl, content = ct, ts = now\<rparr>])
       \<and> getLastMessages hl u g c v s
         = drop (length (bucket s u g c) - DEFAULT_KEEP hl) (bucket s u g c)"
proof -
  from assms(2) have "DEFAULT_KEEP hl < 10 ^ 21" by simp
  with assms(1) have n: "normalizedCount hl v = DEFAULT_KEEP hl"
    by (rule normalizedCount_default)
  have c0: "clock_ok s []" using assms(3) by (auto simp: clock_ok_def sorted_append)
  show ?thesis
    using push_bucket [OF assms(3), of hl u g c rl ct v] get_bucket [OF c0, of hl u g c v]
    by (simp add: n)
qed

theorem default_keep_substituted_witness:
  "normalizedCount None (JNum (number_of_int (- 3))) = 20
   \<and> bucket (pushMessage None 5 ''u'' None (Some ''c'') User ''x'' (JNum (number_of_int (- 3)))
        (empty_store False)) ''u'' None (Some ''c'')
     = [\<lparr>role = User, content = ''x'', ts = 5\<rparr>]
   \<and> getLastMessages None ''u'' None (Some ''c'') (JNum (number_of_int (- 3))) (empty_store False)
     = []"
proof -
  let ?v = "JNum (number_of_int (- 3))"
  have a: "absent_or_not_positive ?v" by (simp add: number_of_int_def)
  have d: "DEFAULT_KEEP None \<le> 2 ^ 53" by (simp add: DEFAULT_KEEP_unset)
  have c: "clock_ok (empty_store False) [5]"
    by (simp add: clock_ok_def empty_store_def table_ok_def)
  have b: "bucket (empty_store False) ''u'' None (Some ''c'') = []"
    by (simp add: bucket_def empty_store_def)
  show ?thesis
    using default_keep_substituted [OF a d c, of "''u''" None "Some ''c''" User "''x''"]
    by (simp add: b DEFAULT_KEEP_unset)
qed

text \<open>
  Claim C10 as stated fails for a non-integer: \<^verbatim>\<open>Number.parseInt\<close> reads the integer
  that the value's string begins with, so \<open>keep = 2.5\<close> is used as 2 and not replaced by
  the default 20. Three entries pushed with \<open>keep = 2.5\<close> leave the last two.
\<close>

theorem fractional_keep_is_truncated:
  "DEFAULT_KEEP None = 20
   \<and> normalizeCount (JNum (Finite False 25 (- 1))) (DEFAULT_KEEP None) = 2
   \<and> getLastMessages None ''u'' None (Some ''c'') JUndefined
       (push_all None ''u'' None (Some ''c'') (JNum (Finite False 25 (- 1))) (test_messages 1 4)
          (empty_store True))
     = test_messages 2 4"
proof -
  have k: "normalizeCount (JNum (Finite False 25 (- 1))) 20 = 2"
    by (simp add: js_eval)
  have l: "normalizeCount (JNum (Finite False 20 0)) 20 = 20"
    by (simp add: js_eval)
  show ?thesis
    by (simp add: DEFAULT_KEEP_unset k l push_all_def test_messages_def empty_store_def
        pushMessage_def getLastMessages_def getMemoryKey_def normalizeId_def Let_def
        shift_while_drop number_of_nat_def upt_rec digits.simps digit_char_def)
qed

text \<open>
  Claim C4. \<^verbatim>\<open>fetchAsBuffer\<close> makes at most 3 requests; after a failed first or second
  attempt it waits 500 ms times the attempt's number and tries again; an attempt that
  succeeds returns its bytes at once; after the third failure it throws the third error
  as it is.
\<close>

theorem fetchAsBuffer_retry_policy:
  "fetchAsBuffer E u w =
     (case http_get E (tick w) u of
        Inr b \<Rightarrow> (Inr b, w\<lparr>tick := tick w + 1, trace := trace w @ [HttpGet u]\<rparr>)
      | Inl e1 \<Rightarrow>
          (case http_get E (tick w + 1) u of
             Inr b \<Rightarrow> (Inr b, w\<lparr>tick := tick w + 2,
                              trace := trace w @ [HttpGet u, Wait 500, HttpGet u]\<rparr>)
           | Inl e2 \<Rightarrow>
               (case http_get E (tick w + 2) u of
                  Inr b \<Rightarrow> (Inr b, w\<lparr>tick := tick w + 3,
                                   trace := trace w @ [HttpGet u, Wait 500, HttpGet u,
                                                       Wait 1000, HttpGet u]\<rparr>)
                | Inl e3 \<Rightarrow> (Inl (Some e3), w\<lparr>tick := tick w + 3,
                                   trace := trace w @ [HttpGet u, Wait 500, HttpGet u,
                                                       Wait 1000, HttpGet u]\<rparr>))))"
  by (rule fetchAsBuffer_unfold)

section \<open>Claims about the attachment modules\<close>

text \<open>
  Claim C6, as amended. \<^verbatim>\<open>classifyDiscordAttachment\<close> returns \<open>isImage = true\<close> if and only
  if the declared MIME type starts with \<open>image/\<close>, or the file extension is a recognized
  image extension, or both width and height are finite numbers; in particular a declared
  \<open>image/\<close> MIME type makes it true whatever the extension. In the Fuku module, for a
  content type that is a string or absent, \<^verbatim>\<open>parseDiscordAttachments\<close> takes the attachment
  for an image if and only if the declared MIME type starts with \<open>image/\<close>, or the
  extension is one of \<open>.png .jpg .jpeg .webp .gif\<close>, or no MIME type is declared and the
  extension is one of \<open>.bmp .tiff .svg\<close> (whose table entry is an \<open>image/\<close> type); width
  and height have no influence there.
\<close>

theorem classify_isImage_iff:
  "(isImage (classifyDiscordAttachment a)
      \<longleftrightarrow> declares_image_mime a \<or> has_image_extension a \<or> has_dimensions a)
   \<and> (declares_image_mime a \<longrightarrow> isImage (classifyDiscordAttachment a))
   \<and> ((\<forall>x. contentType a \<noteq> JNum x) \<longrightarrow>
        parsed_as_image_Fuku E a
        = Inr (declares_image_mime a \<or> extension_Fuku E a \<in> set IMAGE_EXTS_Fuku
               \<or> (declared_mime a = [] \<and> extension_Fuku E a \<in> set [''.bmp'', ''.tiff'', ''.svg''])))
   \<and> parsed_as_image_Fuku E (a\<lparr>width := w, height := h\<rparr>) = parsed_as_image_Fuku E a"
proof (intro conjI impI)
  show "isImage (classifyDiscordAttachment a)
      \<longleftrightarrow> declares_image_mime a \<or> has_image_extension a \<or> has_dimensions a"
    by (simp add: classifyDiscordAttachment_def Let_def hasExt_iff hasMime_iff has_dimensions_def)
  then show "isImage (classifyDiscordAttachment a)" if "declares_image_mime a"
    using that by simp
  show "parsed_as_image_Fuku E (a\<lparr>width := w, height := h\<rparr>) = parsed_as_image_Fuku E a"
    by (simp add: parsed_as_image_Fuku_def)
  assume "\<forall>x. contentType a \<noteq> JNum x"
  then have p: "providedMime_Fuku (contentType a) = Some (declared_mime a)"
    by (rule providedMime_Fuku_declared)
  show "parsed_as_image_Fuku E a
        = Inr (declares_image_mime a \<or> extension_Fuku E a \<in> set IMAGE_EXTS_Fuku
               \<or> (declared_mime a = [] \<and> extension_Fuku E a \<in> set [''.bmp'', ''.tiff'', ''.svg'']))"
  proof (cases "declared_mime a = []")
    case True
    then have "\<not> declares_image_mime a"
      by (simp add: declares_image_mime_iff startsWith_def)
    with True show ?thesis
      unfolding parsed_as_image_Fuku_def Let_def p extension_Fuku_def [symmetric]
      by (simp add: isImageAttachment_Fuku_def normalizeMimeType_Fuku_def or_undefined_def
          table_Fuku_image extension_Fuku_def)
  next
    case False
    then show ?thesis
      unfolding parsed_as_image_Fuku_def Let_def p
      by (auto simp: isImageAttachment_Fuku_def normalizeMimeType_Fuku_def or_undefined_def
          declares_image_mime_iff extension_Fuku_def)
  qed
qed

theorem classify_isImage_iff_witness:
  "isImage (classifyDiscordAttachment photo_upper) \<and> has_image_extension photo_upper
   \<and> \<not> declares_image_mime photo_upper \<and> \<not> has_dimensions photo_upper
   \<and> parsed_as_image_Fuku names_env photo_upper = Inr True"
proof -
  have "extension_is photo_upper ''.png''"
    unfolding extension_is_def
    by (intro exI [of _ "''photo''"] exI [of _ "''PNG''"])
      (simp add: photo_upper_def ext_char_def toLowerCase_def lower_char_def)
  then have e: "has_image_extension photo_upper"
    unfolding has_image_extension_def by (intro bexI [of _ "''.png''"]) (simp_all add: IMAGE_EXTS_def)
  have m: "\<not> declares_image_mime photo_upper"
    by (simp add: declares_image_mime_def photo_upper_def)
  have d: "\<not> has_dimensions photo_upper"
    by (simp add: has_dimensions_def photo_upper_def)
  have n: "\<forall>x. contentType photo_upper \<noteq> JNum x" by (simp add: photo_upper_def)
  have x: "extension_Fuku names_env photo_upper = ''.png''"
    by (simp add: extension_Fuku_def names_env_def photo_upper_def or_else_def toLowerCase_def
        lower_char_def)
  note th = classify_isImage_iff [of photo_upper names_env]
  from th e have i: "isImage (classifyDiscordAttachment photo_upper)" by simp
  from th n have "parsed_as_image_Fuku names_env photo_upper
     = Inr (declares_image_mime photo_upper \<or> extension_Fuku names_env photo_upper \<in> set IMAGE_EXTS_Fuku
               \<or> (declared_mime photo_upper = []
                  \<and> extension_Fuku names_env photo_upper \<in> set [''.bmp'', ''.tiff'', ''.svg'']))"
    by simp
  then have f: "parsed_as_image_Fuku names_env photo_upper = Inr True"
    by (simp add: x IMAGE_EXTS_Fuku_def)
  from i e m d f show ?thesis by simp
qed

text \<open>
  Claim C6 as stated fails in the Fuku module, in both directions: a descriptor with two
  finite dimensions (\<open>clip.mp4\<close>, declared \<open>video/mp4\<close>, 640 by 480) is an image for
  \<^verbatim>\<open>classifyDiscordAttachment\<close> and a file for the Fuku module, and \<open>x.svg\<close> with no
  declared MIME type and no dimensions shows none of the three signals and is an image
  for the Fuku module.
\<close>

theorem Fuku_image_test_differs:
  "has_dimensions clip_with_dimensions
   \<and> isImage (classifyDiscordAttachment clip_with_dimensions)
   \<and> parsed_as_image_Fuku names_env clip_with_dimensions = Inr False
   \<and> \<not> declares_image_mime drawing_svg \<and> \<not> has_image_extension drawing_svg
   \<and> \<not> has_dimensions drawing_svg
   \<and> \<not> isImage (classifyDiscordAttachment drawing_svg)
   \<and> parsed_as_image_Fuku names_env drawing_svg = Inr True"
proof -
  have a: "has_dimensions clip_with_dimensions"
    by (simp add: has_dimensions_def clip_with_dimensions_def number_of_nat_def)
  have b: "isImage (classifyDiscordAttachment clip_with_dimensions)"
    by (simp add: classifyDiscordAttachment_def Let_def clip_with_dimensions_def number_of_nat_def)
  have c: "parsed_as_image_Fuku names_env clip_with_dimensions = Inr False"
    by (simp add: parsed_as_image_Fuku_def Let_def clip_with_dimensions_def names_env_def
        or_else_def isImageAttachment_Fuku_def normalizeMimeType_Fuku_def or_undefined_def
        toLowerCase_def lower_char_def IMAGE_EXTS_Fuku_def startsWith_def)
  have d: "\<not> declares_image_mime drawing_svg"
    by (simp add: declares_image_mime_def drawing_svg_def)
  have e: "\<not> has_dimensions drawing_svg"
    by (simp add: has_dimensions_def drawing_svg_def)
  have f: "\<not> isImage (classifyDiscordAttachment drawing_svg)"
    by (simp add: classifyDiscordAttachment_def Let_def drawing_svg_def or_else_def regex_ext_def
        ext_char_def toLowerCase_def lower_char_def IMAGE_EXTS_def startsWith_def)
  have g: "\<not> has_image_extension drawing_svg"
    unfolding hasExt_iff [symmetric]
    by (simp add: drawing_svg_def or_else_def regex_ext_def
        ext_char_def toLowerCase_def lower_char_def IMAGE_EXTS_def)
  have h: "parsed_as_image_Fuku names_env drawing_svg = Inr True"
    by (simp add: parsed_as_image_Fuku_def Let_def drawing_svg_def names_env_def
        or_else_def isImageAttachment_Fuku_def normalizeMimeType_Fuku_def or_undefined_def
        toLowerCase_def lower_char_def IMAGE_EXTS_Fuku_def startsWith_def table_or_def
        MIME_BY_EXTENSION_Fuku_def or_str_def)
  from a b c d e f g h show ?thesis by simp
qed

text \<open>
  Claim C7, as amended. The resolved MIME type is the declared one when it is a non-empty
  string; otherwise the extension table's entry when the extension is a recognized image
  extension; otherwise \<open>image/png\<close> when both dimensions are finite; otherwise the
  extension table's entry for any other known extension; otherwise
  \<open>application/octet-stream\<close>.
\<close>

theorem classify_mime_precedence:
  "(let m = cls_mimeType (classifyDiscordAttachment a) in
     (declared_mime a \<noteq> [] \<longrightarrow> m = declared_mime a)
   \<and> (declared_mime a = [] \<and> has_image_extension a \<longrightarrow>
        (\<exists>e\<in>set IMAGE_EXTS. extension_is a e \<and> map_of MIME_BY_EXTENSION e = Some m))
   \<and> (declared_mime a = [] \<and> \<not> has_image_extension a \<and> has_dimensions a \<longrightarrow> m = ''image/png'')
   \<and> (declared_mime a = [] \<and> \<not> has_image_extension a \<and> \<not> has_dimensions a \<longrightarrow>
        (\<forall>e t. extension_is a e \<and> map_of MIME_BY_EXTENSION e = Some t \<longrightarrow> m = t)
        \<and> ((\<forall>e. extension_is a e \<longrightarrow> map_of MIME_BY_EXTENSION e = None)
             \<longrightarrow> m = ''application/octet-stream'')))"
proof -
  let ?name = "or_else (att_name a) []"
  let ?ext = "case regex_ext ?name of None \<Rightarrow> [] | Some e \<Rightarrow> toLowerCase e"
  let ?m = "cls_mimeType (classifyDiscordAttachment a)"
  have m: "?m = (if declared_mime a \<noteq> [] then declared_mime a
                 else if has_image_extension a then extToMime ?name
                 else if has_dimensions a then ''image/png''
                 else table_or MIME_BY_EXTENSION ?ext ''application/octet-stream'')"
    by (simp add: classifyDiscordAttachment_def Let_def hasExt_iff declared_mime_def
        has_dimensions_def)
  have c1: "declared_mime a \<noteq> [] \<longrightarrow> ?m = declared_mime a" by (simp add: m)
  have c2: "\<exists>e\<in>set IMAGE_EXTS. extension_is a e \<and> map_of MIME_BY_EXTENSION e = Some ?m"
    if d: "declared_mime a = []" and h: "has_image_extension a"
  proof -
    from h have i: "?ext \<in> set IMAGE_EXTS" by (simp add: hasExt_iff)
    then have ne: "?ext \<noteq> []" by (rule IMAGE_EXTS_nonempty)
    then obtain x where x: "regex_ext ?name = Some x" by (auto split: option.splits)
    have "extension_is a ?ext" using classify_ext_iff [of a ?ext] ne by simp
    moreover have "map_of MIME_BY_EXTENSION ?ext = Some ?m"
      using extToMime_image_ext [OF x] i d h by (simp add: m x)
    ultimately show ?thesis using i by blast
  qed
  have c3: "declared_mime a = [] \<and> \<not> has_image_extension a \<and> has_dimensions a \<longrightarrow> ?m = ''image/png''"
    by (simp add: m)
  have c4: "?m = t"
    if d: "declared_mime a = []" "\<not> has_image_extension a" "\<not> has_dimensions a"
      and e: "extension_is a e" "map_of MIME_BY_EXTENSION e = Some t" for e t
  proof -
    from e(1) have "?ext = e" using classify_ext_iff [of a e] by simp
    moreover from e(2) have "t \<noteq> []"
      by (auto simp: MIME_BY_EXTENSION_def split: if_splits)
    ultimately show ?thesis using d e(2) by (simp add: m table_or_def or_str_def)
  qed
  have c5: "?m = ''application/octet-stream''"
    if d: "declared_mime a = []" "\<not> has_image_extension a" "\<not> has_dimensions a"
      and n: "\<forall>e. extension_is a e \<longrightarrow> map_of MIME_BY_EXTENSION e = None"
  proof (cases "?ext = []")
    case True
    then show ?thesis using d by (simp add: m table_or_def MIME_BY_EXTENSION_def)
  next
    case False
    then have "extension_is a ?ext" using classify_ext_iff [of a ?ext] by simp
    with n have "map_of MIME_BY_EXTENSION ?ext = None" by blast
    then show ?thesis using d by (simp add: m table_or_def)
  qed
  show ?thesis
    unfolding Let_def using c1 c2 c3 c4 c5 by blast
qed

theorem classify_mime_precedence_witness:
  "declared_mime notes_upper = [] \<and> \<not> has_image_extension notes_upper
   \<and> \<not> has_dimensions notes_upper \<and> extension_is notes_upper ''.txt''
   \<and> cls_mimeType (classifyDiscordAttachment notes_upper) = ''text/plain''"
proof -
  have d: "declared_mime notes_upper = []" by (simp add: declared_mime_def notes_upper_def)
  have i: "\<not> has_image_extension notes_upper"
    unfolding hasExt_iff [symmetric]
    by (simp add: notes_upper_def or_else_def regex_ext_def ext_char_def toLowerCase_def
        lower_char_def IMAGE_EXTS_def)
  have h: "\<not> has_dimensions notes_upper" by (simp add: has_dimensions_def notes_upper_def)
  have e: "extension_is notes_upper ''.txt''"
    unfolding extension_is_def
    by (intro exI [of _ "''notes''"] exI [of _ "''TXT''"])
      (simp add: notes_upper_def ext_char_def toLowerCase_def lower_char_def)
  have t: "map_of MIME_BY_EXTENSION ''.txt'' = Some ''text/plain''"
    by (simp add: MIME_BY_EXTENSION_def)
  from classify_mime_precedence [of notes_upper] d i h
  have "\<forall>e t. extension_is notes_upper e \<and> map_of MIME_BY_EXTENSION e = Some t
          \<longrightarrow> cls_mimeType (classifyDiscordAttachment notes_upper) = t"
    unfolding Let_def by blast
  with e t have "cls_mimeType (classifyDiscordAttachment notes_upper) = ''text/plain''" by blast
  with d i h e show ?thesis by simp
qed

text \<open>
  Claim C7 as stated fails: the dimensions are asked before the extension table for an
  extension that is not an image extension, so \<open>doc.pdf\<close> with width and height and no
  declared MIME type resolves to \<open>image/png\<close>, not to the table's \<open>application/pdf\<close>.
\<close>

theorem dimensions_outrank_extension_table:
  "cls_mimeType (classifyDiscordAttachment pdf_with_dimensions) = ''image/png''
   \<and> declared_mime pdf_with_dimensions = []
   \<and> regex_ext ''doc.pdf'' = Some ''.pdf''
   \<and> map_of MIME_BY_EXTENSION ''.pdf'' = Some ''application/pdf''"
  by (simp add: classifyDiscordAttachment_def pdf_with_dimensions_def declared_mime_def
      regex_ext_def ext_char_def or_else_def toLowerCase_def lower_char_def IMAGE_EXTS_def
      MIME_BY_EXTENSION_def number_of_nat_def Let_def)

text \<open>
  Claim C1, as amended. \<^verbatim>\<open>buildGeminiParts\<close> returns a list of length at least 1 in
  both modules. In the newer module its first element is the text part with the supplied
  text (the empty string when no string was supplied). In the Fuku module the text part
  comes first when the text has a character that is not white space; a blank text is not
  pushed, and the list is the single empty text part when there is no attachment either.
\<close>

theorem build_starts_with_text:
  "(\<exists>rest w'. buildGeminiParts E text images files apiKey mx w
                 = (Inr (Text (safe_text text) # rest), w'))
   \<and> (\<exists>ps w'. buildGeminiParts_Fuku E text images files apiKey w = (Inr ps, w') \<and> ps \<noteq> []
         \<and> (trim_nonempty (safe_text text) \<longrightarrow> hd ps = Text (safe_text text))
         \<and> (\<not> trim_nonempty (safe_text text) \<and> images = [] \<and> files = [] \<longrightarrow> ps = [Text []]))"
proof
  show "\<exists>rest w'. buildGeminiParts E text images files apiKey mx w
                 = (Inr (Text (safe_text text) # rest), w')"
    by (rule build_total)
next
  from build_Fuku_total [of E "text" images files apiKey w] obtain bs w'
    where b: "buildGeminiParts_Fuku E text images files apiKey w
             = (Inr (if first_parts_Fuku text @ bs = [] then [Text []]
                     else first_parts_Fuku text @ bs), w')" by blast
  let ?ps = "if first_parts_Fuku text @ bs = [] then [Text []] else first_parts_Fuku text @ bs"
  have 1: "?ps \<noteq> []" by simp
  have 2: "trim_nonempty (safe_text text) \<longrightarrow> hd ?ps = Text (safe_text text)"
    by (simp add: first_parts_Fuku_def)
  have 3: "\<not> trim_nonempty (safe_text text) \<and> images = [] \<and> files = [] \<longrightarrow> ?ps = [Text []]"
  proof (intro impI)
    assume a: "\<not> trim_nonempty (safe_text text) \<and> images = [] \<and> files = []"
    then have "buildGeminiParts_Fuku E text images files apiKey w = (Inr [Text []], w)"
      by (simp add: buildGeminiParts_Fuku_def loops_def finish_def first_parts_Fuku_def)
    with b show "?ps = [Text []]" by simp
  qed
  from b 1 2 3 show "\<exists>ps w'. buildGeminiParts_Fuku E text images files apiKey w = (Inr ps, w') \<and> ps \<noteq> []
         \<and> (trim_nonempty (safe_text text) \<longrightarrow> hd ps = Text (safe_text text))
         \<and> (\<not> trim_nonempty (safe_text text) \<and> images = [] \<and> files = [] \<longrightarrow> ps = [Text []])"
    by blast
qed

theorem build_starts_with_text_witness:
  "fst (buildGeminiParts sample_env (JStr ''hi'') [image_a, image_b] [] None None new_world)
   = Inr [Text ''hi'', Text ''Attached image could not be processed (a.png).'',
          InlineData ''image/png'' ''UE5HREFUQQ=='']
   \<and> fst (buildGeminiParts_Fuku sample_env (JStr ''hi'') [] [] None new_world) = Inr [Text ''hi'']"
  using build_starts_with_text [of sample_env "JStr ''hi''" "[image_a, image_b]" "[]" None None new_world]
  by (simp add: build_eval sample_eval)

text \<open>
  Claim C1 as stated fails in the Fuku module, which pushes the text only
  \<^verbatim>\<open>if (safeText.trim().length > 0)\<close>: with an empty text and one image the list starts
  with the image's inline part, and a text of two spaces with no attachment gives the
  empty text part, not the supplied text.
\<close>

theorem Fuku_build_without_text_part:
  "fst (buildGeminiParts_Fuku sample_env (JStr []) [image_b] [] None new_world)
   = Inr [InlineData ''image/png'' ''UE5HREFUQQ=='']
   \<and> fst (buildGeminiParts_Fuku sample_env (JStr ''  '') [] [] None new_world) = Inr [Text []]"
  by (simp add: build_eval sample_eval)




text \<open>
  Claim C8. \<^verbatim>\<open>buildGeminiParts\<close> never throws, in either module. When the \<^verbatim>\<open>try\<close>
  block of an image or of a file throws, whatever the error, the parts it had pushed are
  followed by the text notice of that attachment, and the output goes on with the parts
  of the remaining attachments, in order: \<open>ps1\<close> are the parts before the failing
  attachment, \<open>rest\<close> those that the remaining images and files produce from the world
  the failure leaves.
\<close>

theorem build_isolates_failures:
  "(\<exists>ps w'. buildGeminiParts E text images files apiKey mx w = (Inr ps, w'))
   \<and> (\<exists>ps w'. buildGeminiParts_Fuku E text images files apiKey w = (Inr ps, w'))
   \<and> (\<forall>pre img post ps1 w1 error pushed w2.
         images = pre @ img # post \<and> truthy (url img)
         \<and> for_each (image_step E apiKey (inline_limit mx)) pre [Text (safe_text text)]
               (announce apiKey w) = (Normal, ps1, w1)
         \<and> image_try E apiKey (inline_limit mx) img w1 = (Thrown error, pushed, w2)
         \<longrightarrow> (\<exists>rest w'.
                loops (image_step E apiKey (inline_limit mx)) (file_step E apiKey) post files []
                  (warn ''[ATTACHMENTS] Image handling error:'' (err_detail error) w2)
                = (Normal, rest, w')
                \<and> buildGeminiParts E text images files apiKey mx w
                  = (Inr (ps1 @ pushed @ Text (image_failed_notice img) # rest), w')))
   \<and> (\<forall>pre f post ps0 wm ps1 w1 error pushed w2.
         files = pre @ f # post \<and> truthy (url f)
         \<and> for_each (image_step E apiKey (inline_limit mx)) images [Text (safe_text text)]
               (announce apiKey w) = (Normal, ps0, wm)
         \<and> for_each (file_step E apiKey) pre ps0 wm = (Normal, ps1, w1)
         \<and> file_try_with normalizeMimeType uploadToGeminiFileAPI E apiKey f w1
             = (Thrown error, pushed, w2)
         \<longrightarrow> (\<exists>rest w'.
                for_each (file_step E apiKey) post []
                  (warn ''[ATTACHMENTS] File handling error:'' (err_detail error) w2)
                = (Normal, rest, w')
                \<and> buildGeminiParts E text images files apiKey mx w
                  = (Inr (ps1 @ pushed @ Text (file_failed_notice f) # rest), w')))
   \<and> (\<forall>pre img post ps1 w1 error pushed w2.
         images = pre @ img # post
         \<and> for_each (image_step_Fuku E apiKey) pre (first_parts_Fuku text) w = (Normal, ps1, w1)
         \<and> image_try_Fuku E apiKey img w1 = (Thrown error, pushed, w2)
         \<longrightarrow> (\<exists>rest w'.
                loops (image_step_Fuku E apiKey) (file_step_Fuku E apiKey) post files []
                  (warn ''[ATTACHMENTS] Image handling error:'' (err_detail error) w2)
                = (Normal, rest, w')
                \<and> buildGeminiParts_Fuku E text images files apiKey w
                  = (Inr (ps1 @ pushed @ Text (image_failed_notice img) # rest), w')))
   \<and> (\<forall>pre f post ps0 wm ps1 w1 error pushed w2.
         files = pre @ f # post
         \<and> for_each (image_step_Fuku E apiKey) images (first_parts_Fuku text) w = (Normal, ps0, wm)
         \<and> for_each (file_step_Fuku E apiKey) pre ps0 wm = (Normal, ps1, w1)
         \<and> file_try_with normalizeMimeType_Fuku uploadToGeminiFileAPI_Fuku E apiKey f w1
             = (Thrown error, pushed, w2)
         \<longrightarrow> (\<exists>rest w'.
                for_each (file_step_Fuku E apiKey) post []
                  (warn ''[ATTACHMENTS] File handling error:'' (err_detail error) w2)
                = (Normal, rest, w')
                \<and> buildGeminiParts_Fuku E text images files apiKey w
                  = (Inr (ps1 @ pushed @ Text (file_failed_notice f) # rest), w')))"
proof (intro conjI allI impI)
  show "\<exists>ps w'. buildGeminiParts E text images files apiKey mx w = (Inr ps, w')"
    using build_total [of E "text" images files apiKey mx w] by blast
next
  show "\<exists>ps w'. buildGeminiParts_Fuku E text images files apiKey w = (Inr ps, w')"
    using build_Fuku_total [of E "text" images files apiKey w] by blast
next
  fix pre img post ps1 w1 error pushed w2
  assume a: "images = pre @ img # post \<and> truthy (url img)
         \<and> for_each (image_step E apiKey (inline_limit mx)) pre [Text (safe_text text)]
               (announce apiKey w) = (Normal, ps1, w1)
         \<and> image_try E apiKey (inline_limit mx) img w1 = (Thrown error, pushed, w2)"
  then have st: "image_step E apiKey (inline_limit mx) img w1
         = (Normal, pushed @ [Text (image_failed_notice img)],
            warn ''[ATTACHMENTS] Image handling error:'' (err_detail error) w2)"
    by (simp add: image_step_thrown)
  from a have pre: "for_each (image_step E apiKey (inline_limit mx)) pre [Text (safe_text text)]
               (announce apiKey w) = (Normal, ps1, w1)" by simp
  from loops_image_at [of "image_step E apiKey (inline_limit mx)" "file_step E apiKey",
      OF image_step_Normal file_step_Normal pre st, of post files] a
  show "\<exists>rest w'.
                loops (image_step E apiKey (inline_limit mx)) (file_step E apiKey) post files []
                  (warn ''[ATTACHMENTS] Image handling error:'' (err_detail error) w2)
                = (Normal, rest, w')
                \<and> buildGeminiParts E text images files apiKey mx w
                  = (Inr (ps1 @ pushed @ Text (image_failed_notice img) # rest), w')"
    by (auto simp: buildGeminiParts_def finish_def)
next
  fix pre f post ps0 wm ps1 w1 error pushed w2
  assume a: "files = pre @ f # post \<and> truthy (url f)
         \<and> for_each (image_step E apiKey (inline_limit mx)) images [Text (safe_text text)]
               (announce apiKey w) = (Normal, ps0, wm)
         \<and> for_each (file_step E apiKey) pre ps0 wm = (Normal, ps1, w1)
         \<and> file_try_with normalizeMimeType uploadToGeminiFileAPI E apiKey f w1
             = (Thrown error, pushed, w2)"
  then have st: "file_step E apiKey f w1
         = (Normal, pushed @ [Text (file_failed_notice f)],
            warn ''[ATTACHMENTS] File handling error:'' (err_detail error) w2)"
    by (simp add: file_step_thrown)
  from a have im: "for_each (image_step E apiKey (inline_limit mx)) images [Text (safe_text text)]
               (announce apiKey w) = (Normal, ps0, wm)"
    and pre: "for_each (file_step E apiKey) pre ps0 wm = (Normal, ps1, w1)" by simp_all
  from loops_file_at [of "file_step E apiKey", OF file_step_Normal im pre st, of post] a
  show "\<exists>rest w'.
                for_each (file_step E apiKey) post []
                  (warn ''[ATTACHMENTS] File handling error:'' (err_detail error) w2)
                = (Normal, rest, w')
                \<and> buildGeminiParts E text images files apiKey mx w
                  = (Inr (ps1 @ pushed @ Text (file_failed_notice f) # rest), w')"
    by (auto simp: buildGeminiParts_def finish_def)
next
  fix pre img post ps1 w1 error pushed w2
  assume a: "images = pre @ img # post
         \<and> for_each (image_step_Fuku E apiKey) pre (first_parts_Fuku text) w = (Normal, ps1, w1)
         \<and> image_try_Fuku E apiKey img w1 = (Thrown error, pushed, w2)"
  then have st: "image_step_Fuku E apiKey img w1
         = (Normal, pushed @ [Text (image_failed_notice img)],
            warn ''[ATTACHMENTS] Image handling error:'' (err_detail error) w2)"
    by (simp add: image_step_Fuku_thrown)
  from a have pre: "for_each (image_step_Fuku E apiKey) pre (first_parts_Fuku text) w
                    = (Normal, ps1, w1)" by simp
  from loops_image_at [of "image_step_Fuku E apiKey" "file_step_Fuku E apiKey",
      OF image_step_Fuku_Normal file_step_Fuku_Normal pre st, of post files] a
  show "\<exists>rest w'.
                loops (image_step_Fuku E apiKey) (file_step_Fuku E apiKey) post files []
                  (warn ''[ATTACHMENTS] Image handling error:'' (err_detail error) w2)
                = (Normal, rest, w')
                \<and> buildGeminiParts_Fuku E text images files apiKey w
                  = (Inr (ps1 @ pushed @ Text (image_failed_notice img) # rest), w')"
    by (auto simp: buildGeminiParts_Fuku_def finish_def)
next
  fix pre f post ps0 wm ps1 w1 error pushed w2
  assume a: "files = pre @ f # post
         \<and> for_each (image_step_Fuku E apiKey) images (first_parts_Fuku text) w = (Normal, ps0, wm)
         \<and> for_each (file_step_Fuku E apiKey) pre ps0 wm = (Normal, ps1, w1)
         \<and> file_try_with normalizeMimeType_Fuku uploadToGeminiFileAPI_Fuku E apiKey f w1
             = (Thrown error, pushed, w2)"
  then have st: "file_step_Fuku E apiKey f w1
         = (Normal, pushed @ [Text (file_failed_notice f)],
            warn ''[ATTACHMENTS] File handling error:'' (err_detail error) w2)"
    by (simp add: file_step_Fuku_thrown)
  from a have im: "for_each (image_step_Fuku E apiKey) images (first_parts_Fuku text) w
                   = (Normal, ps0, wm)"
    and pre: "for_each (file_step_Fuku E apiKey) pre ps0 wm = (Normal, ps1, w1)" by simp_all
  from loops_file_at [of "file_step_Fuku E apiKey", OF file_step_Fuku_Normal im pre st, of post] a
  show "\<exists>rest w'.
                for_each (file_step_Fuku E apiKey) post []
                  (warn ''[ATTACHMENTS] File handling error:'' (err_detail error) w2)
                = (Normal, rest, w')
                \<and> buildGeminiParts_Fuku E text images files apiKey w
                  = (Inr (ps1 @ pushed @ Text (file_failed_notice f) # rest), w')"
    by (auto simp: buildGeminiParts_Fuku_def finish_def)
qed

theorem build_isolates_failures_witness:
  "image_try sample_env None (inline_limit None) image_a (announce None new_world)
   = (Thrown (Some (Error (Some ''ECONNRESET'') ''socket hang up'')), [], after_a)
   \<and> fst (buildGeminiParts sample_env (JStr ''hi'') [image_a, image_b] [image_a] None None new_world)
     = Inr [Text ''hi'', Text ''Attached image could not be processed (a.png).'',
            InlineData ''image/png'' ''UE5HREFUQQ=='',
            Text ''Attached file received but preview unavailable: a.png (image/png).'']"
proof -
  let ?E = sample_env
  let ?err = "Some (Error (Some ''ECONNRESET'') ''socket hang up'')"
  have u: "truthy (url image_a)" by (simp add: truthy_def image_a_def)
  have p: "for_each (image_step ?E None (inline_limit None)) [] [Text (safe_text (JStr ''hi''))]
             (announce None new_world)
           = (Normal, [Text ''hi''], announce None new_world)"
    by (simp add: safe_text_def)
  have t: "image_try ?E None (inline_limit None) image_a (announce None new_world)
           = (Thrown ?err, [], after_a)"
    by (simp add: build_eval sample_eval after_a_def)
  note c3 = build_isolates_failures [of ?E "JStr ''hi''" "[image_a, image_b]" "[image_a]" None None
      new_world, THEN conjunct2, THEN conjunct2, THEN conjunct1, rule_format,
      of "[]" image_a "[image_b]" "[Text ''hi'']" "announce None new_world" ?err "[]" after_a]
  have "[image_a, image_b] = [] @ image_a # [image_b] \<and> truthy (url image_a)
         \<and> for_each (image_step ?E None (inline_limit None)) [] [Text (safe_text (JStr ''hi''))]
               (announce None new_world) = (Normal, [Text ''hi''], announce None new_world)
         \<and> image_try ?E None (inline_limit None) image_a (announce None new_world)
            = (Thrown ?err, [], after_a)"
    using u p t by simp
  from c3 [OF this] obtain rest w' where
    r: "loops (image_step ?E None (inline_limit None)) (file_step ?E None) [image_b] [image_a] []
          (warn ''[ATTACHMENTS] Image handling error:'' (err_detail ?err) after_a)
        = (Normal, rest, w')"
    and b: "buildGeminiParts ?E (JStr ''hi'') [image_a, image_b] [image_a] None None new_world
            = (Inr ([Text ''hi''] @ [] @ Text (image_failed_notice image_a) # rest), w')"
    by blast
  have "fst (snd (loops (image_step ?E None (inline_limit None)) (file_step ?E None) [image_b]
          [image_a] []
          (warn ''[ATTACHMENTS] Image handling error:'' (err_detail ?err) after_a)))
        = [InlineData ''image/png'' ''UE5HREFUQQ=='',
            Text ''Attached file received but preview unavailable: a.png (image/png).'']"
    by (simp add: build_eval sample_eval after_a_def)
  with r have "rest = [InlineData ''image/png'' ''UE5HREFUQQ=='',
            Text ''Attached file received but preview unavailable: a.png (image/png).'']"
    by simp
  with b t show ?thesis
    by (simp add: image_failed_notice_def image_a_def or_else_def)
qed

text \<open>
  Claim C9, as amended. Every call of \<^verbatim>\<open>uploadToGeminiFileAPI\<close> (either module) whose
  \<^verbatim>\<open>fs.mkdtemp\<close> and \<^verbatim>\<open>fs.writeFile\<close> succeed calls \<^verbatim>\<open>fs.unlink\<close> on the temporary file
  and then \<^verbatim>\<open>fs.rm\<close> on the temporary directory after the upload, whatever the upload
  returned or threw; the file is gone when \<^verbatim>\<open>fs.unlink\<close> succeeds, and the directory
  with all below it when \<^verbatim>\<open>fs.rm\<close> succeeds. An error of either cleanup call is logged
  unless its code is \<open>ENOENT\<close>, and the call returns or throws what the upload returned or
  threw.
\<close>

theorem upload_cleans_up:
  assumes "truthy apiKey" and "fs_fault E (tick w) = None" and "fs_fault E (tick w + 1) = None"
  shows
    "(let tmpDir = mkdtemp_dir E (tick w);
          w1 = (request Mkdtemp w)\<lparr>paths := tmpDir # paths w\<rparr>;
          fileName = generateTempFilePath E nm w1;
          filePath = path_join tmpDir fileName;
          w2 = (request (WriteFile filePath) w1)\<lparr>paths := filePath # paths w1\<rparr>;
          body = upload_body pick E filePath mt nm fileName w2;
          result = upload_with pick E buf mt nm apiKey w
      in fst result = fst body
       \<and> trace (snd body)
         = trace w @ [Mkdtemp, WriteFile filePath,
                      UploadFile filePath (or_str mt ''application/octet-stream'')
                        (or_else nm fileName)]
       \<and> trace (snd result)
         = trace (snd body) @ [Unlink filePath]
           @ cleanup_log ''[ATTACHMENTS] Failed to remove temp file:'' (fs_fault E (tick w + 3))
           @ [Rm tmpDir]
           @ cleanup_log ''[ATTACHMENTS] Failed to remove temp directory:''
               (fs_fault E (tick w + 4))
       \<and> (fs_fault E (tick w + 3) = None \<longrightarrow> filePath \<notin> set (paths (snd result)))
       \<and> (fs_fault E (tick w + 4) = None
            \<longrightarrow> (\<forall>q\<in>set (paths (snd result)). \<not> inside tmpDir q)))"
proof -
  define tmpDir where "tmpDir = mkdtemp_dir E (tick w)"
  define w1 where "w1 = (request Mkdtemp w)\<lparr>paths := tmpDir # paths w\<rparr>"
  define fileName where "fileName = generateTempFilePath E nm w1"
  define filePath where "filePath = path_join tmpDir fileName"
  define w2 where "w2 = (request (WriteFile filePath) w1)\<lparr>paths := filePath # paths w1\<rparr>"
  define body where "body = upload_body pick E filePath mt nm fileName w2"
  define result where "result = upload_with pick E buf mt nm apiKey w"
  have r: "result = (fst body, cleanup E filePath tmpDir (snd body))"
    unfolding result_def upload_with_unfold [OF assms]
    by (simp add: Let_def tmpDir_def w1_def fileName_def filePath_def w2_def body_def)
  have sb: "snd body = request (UploadFile filePath (or_str mt ''application/octet-stream'')
                                  (or_else nm fileName)) w2"
    unfolding body_def by (rule upload_body_world)
  have tk: "tick (snd body) = tick w + 3"
    by (simp add: sb w2_def w1_def request_def)
  have pm: "filePath \<in> set (paths (snd body))"
    by (simp add: sb w2_def request_def)
  have tb: "trace (snd body)
         = trace w @ [Mkdtemp, WriteFile filePath,
                      UploadFile filePath (or_str mt ''application/octet-stream'')
                        (or_else nm fileName)]"
    by (simp add: sb w2_def w1_def request_def)
  note ce = cleanup_effect [OF pm, of E tmpDir, unfolded tk]
  have t4: "tick w + 3 + 1 = tick w + 4" by simp
  have "fst result = fst body
       \<and> trace (snd body)
         = trace w @ [Mkdtemp, WriteFile filePath,
                      UploadFile filePath (or_str mt ''application/octet-stream'')
                        (or_else nm fileName)]
       \<and> trace (snd result)
         = trace (snd body) @ [Unlink filePath]
           @ cleanup_log ''[ATTACHMENTS] Failed to remove temp file:'' (fs_fault E (tick w + 3))
           @ [Rm tmpDir]
           @ cleanup_log ''[ATTACHMENTS] Failed to remove temp directory:''
               (fs_fault E (tick w + 4))
       \<and> (fs_fault E (tick w + 3) = None \<longrightarrow> filePath \<notin> set (paths (snd result)))
       \<and> (fs_fault E (tick w + 4) = None
            \<longrightarrow> (\<forall>q\<in>set (paths (snd result)). \<not> inside tmpDir q))"
    using ce tb unfolding t4 by (simp add: r)
  then show ?thesis
    unfolding Let_def tmpDir_def w1_def fileName_def filePath_def w2_def body_def result_def .
qed

theorem upload_cleans_up_witness:
  "uploadToGeminiFileAPI sample_env ''PNGDATA'' ''image/png'' (Some ''big.png'') (Some ''key'') new_world
   = (Inr (FileData ''files/abc'' ''image/png''),
      \<lparr>tick = 5,
       trace = [Mkdtemp, WriteFile ''/tmp/gemini-upload-Ab12Cd/big.png'',
                UploadFile ''/tmp/gemini-upload-Ab12Cd/big.png'' ''image/png'' ''big.png'',
                Unlink ''/tmp/gemini-upload-Ab12Cd/big.png'', Rm ''/tmp/gemini-upload-Ab12Cd''],
       paths = []\<rparr>)"
proof -
  have k: "truthy (Some ''key'')" by (simp add: truthy_def)
  have f0: "fs_fault sample_env (tick new_world) = None"
    and f1: "fs_fault sample_env (tick new_world + 1) = None"
    by (simp_all add: sample_env_def)
  from upload_cleans_up [OF k f0 f1, of "Some ''big.png''" handle "''image/png''" "''PNGDATA''"]
  show ?thesis
    by (simp add: uploadToGeminiFileAPI_def upload_with_def mkdtemp_def writeFile_def
        upload_body_def uploadFile_def cleanup_def unlink_def rm_def request_def warn_def emit_def
        generateTempFilePath_def safe_char_def path_join_def inside_def handle_def
        truthy_def or_else_def or_str_def sample_env_def new_world_def Let_def)
qed

text \<open>
  Claim C9 as stated fails where it says that an error raised during cleanup is logged:
  an \<open>ENOENT\<close> error of \<^verbatim>\<open>fs.unlink\<close> is caught without a warning.
\<close>

theorem ENOENT_cleanup_error_not_logged:
  "unlink enoent_env ''/tmp/gemini-upload-Ab12Cd/big.png''
     \<lparr>tick = 3, trace = [], paths = [''/tmp/gemini-upload-Ab12Cd/big.png'']\<rparr>
   = (Inl (Error (Some ''ENOENT'') ''ENOENT: no such file or directory, unlink''),
      \<lparr>tick = 4, trace = [Unlink ''/tmp/gemini-upload-Ab12Cd/big.png''],
       paths = [''/tmp/gemini-upload-Ab12Cd/big.png'']\<rparr>)
   \<and> trace (snd (uploadToGeminiFileAPI enoent_env ''PNGDATA'' ''image/png'' (Some ''big.png'')
                    (Some ''key'') new_world))
     = [Mkdtemp, WriteFile ''/tmp/gemini-upload-Ab12Cd/big.png'',
        UploadFile ''/tmp/gemini-upload-Ab12Cd/big.png'' ''image/png'' ''big.png'',
        Unlink ''/tmp/gemini-upload-Ab12Cd/big.png'', Rm ''/tmp/gemini-upload-Ab12Cd'']"
  by (simp add: uploadToGeminiFileAPI_def upload_with_def mkdtemp_def writeFile_def
        upload_body_def uploadFile_def cleanup_def unlink_def rm_def request_def warn_def emit_def
        generateTempFilePath_def safe_char_def path_join_def inside_def handle_def
        truthy_def or_else_def or_str_def sample_env_def enoent_env_def new_world_def Let_def)

end
